theory Spec2Isabelle
  imports Complex_Main
begin

section \<open>Values of the numerical layer\<close>

text \<open>
  The module \<^verbatim>\<open>statsmodels/distributions/copula/copulas.py\<close> computes with NumPy arrays
  of double precision numbers. A number is modelled as a real or one of the three special
  values of IEEE arithmetic: the operations on finite numbers are exact (rounding, overflow
  and the sign of zero are not modelled), the special values follow IEEE 754.
\<close>

datatype fl = Fin real | PInf | NInf | NaN

fun is_finite :: "fl \<Rightarrow> bool" where
  "is_finite (Fin x) = True"
| "is_finite PInf = False"
| "is_finite NInf = False"
| "is_finite NaN = False"

definition signed_inf :: "real \<Rightarrow> fl" where
  "signed_inf s = (if s = 0 then NaN else if 0 < s then PInf else NInf)"

fun fl_neg :: "fl \<Rightarrow> fl" where
  "fl_neg (Fin a) = Fin (- a)"
| "fl_neg PInf = NInf"
| "fl_neg NInf = PInf"
| "fl_neg NaN = NaN"

fun fl_add :: "fl \<Rightarrow> fl \<Rightarrow> fl" where
  "fl_add (Fin a) (Fin b) = Fin (a + b)"
| "fl_add (Fin a) PInf = PInf"
| "fl_add (Fin a) NInf = NInf"
| "fl_add PInf (Fin b) = PInf"
| "fl_add PInf PInf = PInf"
| "fl_add PInf NInf = NaN"
| "fl_add NInf (Fin b) = NInf"
| "fl_add NInf PInf = NaN"
| "fl_add NInf NInf = NInf"
| "fl_add NaN y = NaN"
| "fl_add x NaN = NaN"

definition fl_sub :: "fl \<Rightarrow> fl \<Rightarrow> fl" where
  "fl_sub x y = fl_add x (fl_neg y)"

fun fl_mul :: "fl \<Rightarrow> fl \<Rightarrow> fl" where
  "fl_mul (Fin a) (Fin b) = Fin (a * b)"
| "fl_mul (Fin a) PInf = signed_inf a"
| "fl_mul (Fin a) NInf = signed_inf (- a)"
| "fl_mul PInf (Fin b) = signed_inf b"
| "fl_mul NInf (Fin b) = signed_inf (- b)"
| "fl_mul PInf PInf = PInf"
| "fl_mul PInf NInf = NInf"
| "fl_mul NInf PInf = NInf"
| "fl_mul NInf NInf = PInf"
| "fl_mul NaN y = NaN"
| "fl_mul x NaN = NaN"

text \<open>Division of a number by a count, as \<^verbatim>\<open>np.mean\<close> does it: \<^verbatim>\<open>0.0 / 0\<close> is NaN.\<close>

fun fl_div_count :: "fl \<Rightarrow> nat \<Rightarrow> fl" where
  "fl_div_count (Fin a) n = (if n = 0 then signed_inf a else Fin (a / real n))"
| "fl_div_count PInf n = PInf"
| "fl_div_count NInf n = NInf"
| "fl_div_count NaN n = NaN"

text \<open>A sum accumulated from \<^verbatim>\<open>0.0\<close>, left to right.\<close>

definition fl_sum :: "fl list \<Rightarrow> fl" where
  "fl_sum xs = foldl fl_add (Fin 0) xs"

fun fl_exp :: "fl \<Rightarrow> fl" where
  "fl_exp (Fin a) = Fin (exp a)"
| "fl_exp PInf = PInf"
| "fl_exp NInf = Fin 0"
| "fl_exp NaN = NaN"

fun fl_log :: "fl \<Rightarrow> fl" where
  "fl_log (Fin a) = (if 0 < a then Fin (ln a) else if a = 0 then NInf else NaN)"
| "fl_log PInf = PInf"
| "fl_log NInf = NaN"
| "fl_log NaN = NaN"

text \<open>
  Python values that travel as parameters: a number or a tuple. \<^verbatim>\<open>cop_args\<close> is one such
  value (a tuple by the docstrings); \<^verbatim>\<open>marg_args\<close> is a list of tuples, each a list of
  values unpacked into the marginal's call.
\<close>

datatype pyval = PNum fl | PTuple "pyval list"

datatype pyerr = IndexError | ValueError | TypeError | NotImplementedError

text \<open>A call either raises (\<open>Inl\<close>) or returns (\<open>Inr\<close>); \<open>pbind\<close> sequences two calls.\<close>

definition pbind :: "pyerr + 'a \<Rightarrow> ('a \<Rightarrow> pyerr + 'b) \<Rightarrow> pyerr + 'b" where
  "pbind r f = (case r of Inl e \<Rightarrow> Inl e | Inr v \<Rightarrow> f v)"

definition list_index :: "'a list \<Rightarrow> nat \<Rightarrow> pyerr + 'a" where
  "list_index xs i = (if i < length xs then Inr (xs ! i) else Inl IndexError)"

section \<open>Arrays\<close>

text \<open>
  An array of rank 0, 1 or 2. \<open>Mat m rows\<close> has shape \<open>(length rows, m)\<close>; it is well
  formed when every row has \<open>m\<close> entries.
\<close>

datatype ndarray = Scalar fl | Vec "fl list" | Mat nat "fl list list"

fun wf_array :: "ndarray \<Rightarrow> bool" where
  "wf_array (Scalar x) = True"
| "wf_array (Vec xs) = True"
| "wf_array (Mat m rows) = list_all (\<lambda>r. length r = m) rows"

fun ndim :: "ndarray \<Rightarrow> nat" where
  "ndim (Scalar x) = 0"
| "ndim (Vec xs) = 1"
| "ndim (Mat m rows) = 2"

text \<open>\<^verbatim>\<open>y.shape[-1]\<close> and \<^verbatim>\<open>x.shape[1]\<close>: indexing the shape tuple.\<close>

fun shape_last :: "ndarray \<Rightarrow> pyerr + nat" where
  "shape_last (Scalar x) = Inl IndexError"
| "shape_last (Vec xs) = Inr (length xs)"
| "shape_last (Mat m rows) = Inr m"

fun shape_1 :: "ndarray \<Rightarrow> pyerr + nat" where
  "shape_1 (Scalar x) = Inl IndexError"
| "shape_1 (Vec xs) = Inl IndexError"
| "shape_1 (Mat m rows) = Inr m"

text \<open>\<^verbatim>\<open>y[..., i]\<close> for \<open>i \<ge> 0\<close>: entry \<open>i\<close> of the last axis.\<close>

fun ellipsis_index :: "ndarray \<Rightarrow> nat \<Rightarrow> pyerr + ndarray" where
  "ellipsis_index (Scalar x) i = Inl IndexError"
| "ellipsis_index (Vec xs) i = (if i < length xs then Inr (Scalar (xs ! i)) else Inl IndexError)"
| "ellipsis_index (Mat m rows) i =
     (if i < m then Inr (Vec (map (\<lambda>r. r ! i) rows)) else Inl IndexError)"

text \<open>\<^verbatim>\<open>x[:, i]\<close> for \<open>i \<ge> 0\<close>: column \<open>i\<close>; an array of rank below 2 has too few axes.\<close>

fun colon_index :: "ndarray \<Rightarrow> nat \<Rightarrow> pyerr + ndarray" where
  "colon_index (Scalar x) i = Inl IndexError"
| "colon_index (Vec xs) i = Inl IndexError"
| "colon_index (Mat m rows) i =
     (if i < m then Inr (Vec (map (\<lambda>r. r ! i) rows)) else Inl IndexError)"

text \<open>A function applied to every entry (a NumPy ufunc, a vectorised distribution method).\<close>

fun map_array :: "(fl \<Rightarrow> fl) \<Rightarrow> ndarray \<Rightarrow> ndarray" where
  "map_array f (Scalar x) = Scalar (f x)"
| "map_array f (Vec xs) = Vec (map f xs)"
| "map_array f (Mat m rows) = Mat m (map (map f) rows)"

definition np_exp :: "ndarray \<Rightarrow> ndarray" where
  "np_exp a = map_array fl_exp a"

definition np_log :: "ndarray \<Rightarrow> ndarray" where
  "np_log a = map_array fl_log a"

text \<open>
  \<^verbatim>\<open>np.column_stack\<close>: an array of rank below 2 becomes a column (a number a 1 by 1
  matrix), and the columns are concatenated along the second axis. The row counts must
  agree, and there must be at least one array.
\<close>

fun as_columns :: "ndarray \<Rightarrow> nat \<times> fl list list" where
  "as_columns (Scalar x) = (1, [[x]])"
| "as_columns (Vec xs) = (1, map (\<lambda>x. [x]) xs)"
| "as_columns (Mat m rows) = (m, rows)"

fun concatenate_1 :: "nat \<times> fl list list \<Rightarrow> ndarray list \<Rightarrow> pyerr + ndarray" where
  "concatenate_1 (m, rows) [] = Inr (Mat m rows)"
| "concatenate_1 (m, rows) (a # as) =
     (case as_columns a of (m', rows') \<Rightarrow>
        if length rows' = length rows
        then concatenate_1 (m + m', map2 (@) rows rows') as
        else Inl ValueError)"

fun column_stack :: "ndarray list \<Rightarrow> pyerr + ndarray" where
  "column_stack [] = Inl ValueError"
| "column_stack (a # as) = concatenate_1 (as_columns a) as"

text \<open>\<^verbatim>\<open>u.squeeze()\<close>: every axis of length 1 is removed.\<close>

fun squeeze :: "ndarray \<Rightarrow> ndarray" where
  "squeeze (Scalar x) = Scalar x"
| "squeeze (Vec xs) = (if length xs = 1 then Scalar (hd xs) else Vec xs)"
| "squeeze (Mat m rows) =
     (if length rows = 1 \<and> m = 1 then Scalar (hd (hd rows))
      else if length rows = 1 then Vec (hd rows)
      else if m = 1 then Vec (map hd rows)
      else Mat m rows)"

text \<open>
  \<^verbatim>\<open>lpdf += b\<close>. A Python or NumPy number on the left is immutable: the sum is a new
  array of the shape of \<open>b\<close>. An array on the left is updated in place: \<open>b\<close> must
  broadcast to the shape of the array, or NumPy raises \<^verbatim>\<open>ValueError\<close>.
\<close>

fun broadcast_entry :: "ndarray \<Rightarrow> nat \<Rightarrow> nat \<Rightarrow> fl" where
  "broadcast_entry (Scalar b) r c = b"
| "broadcast_entry (Vec bs) r c = (if length bs = 1 then bs ! 0 else bs ! c)"
| "broadcast_entry (Mat m rows) r c =
     rows ! (if length rows = 1 then 0 else r) ! (if m = 1 then 0 else c)"

fun broadcasts_to :: "ndarray \<Rightarrow> nat \<Rightarrow> nat \<Rightarrow> bool" where
  "broadcasts_to (Scalar b) n m = True"
| "broadcasts_to (Vec bs) n m = (length bs = m \<or> length bs = 1)"
| "broadcasts_to (Mat m' rows) n m =
     ((length rows = n \<or> length rows = 1) \<and> (m' = m \<or> m' = 1))"

fun np_iadd :: "ndarray \<Rightarrow> ndarray \<Rightarrow> pyerr + ndarray" where
  "np_iadd (Scalar a) b = Inr (map_array (fl_add a) b)"
| "np_iadd (Vec xs) (Scalar b) = Inr (Vec (map (\<lambda>x. fl_add x b) xs))"
| "np_iadd (Vec xs) (Vec bs) =
     (if length bs = length xs then Inr (Vec (map2 fl_add xs bs))
      else if length bs = 1 then Inr (Vec (map (\<lambda>x. fl_add x (bs ! 0)) xs))
      else Inl ValueError)"
| "np_iadd (Vec xs) (Mat m rows) = Inl ValueError"
| "np_iadd (Mat m rows) b =
     (if broadcasts_to b (length rows) m
      then Inr (Mat m (map (\<lambda>r. map (\<lambda>c. fl_add (rows ! r ! c) (broadcast_entry b r c)) [0..<m])
                         [0..<length rows]))
      else Inl ValueError)"

text \<open>
  \<^verbatim>\<open>sample[:, i] = v\<close>: column \<open>i\<close> of a matrix is overwritten in place; \<open>v\<close> must
  broadcast to the column (an assignment drops leading axes of length 1 of \<open>v\<close>).
\<close>

fun set_column :: "ndarray \<Rightarrow> nat \<Rightarrow> ndarray \<Rightarrow> pyerr + ndarray" where
  "set_column (Scalar x) i v = Inl IndexError"
| "set_column (Vec xs) i v = Inl IndexError"
| "set_column (Mat m rows) i v =
     (if \<not> i < m then Inl IndexError
      else case v of
        Scalar b \<Rightarrow> Inr (Mat m (map (\<lambda>r. r[i := b]) rows))
      | Vec bs \<Rightarrow>
          if length bs = length rows then Inr (Mat m (map2 (\<lambda>r b. r[i := b]) rows bs))
          else if length bs = 1 then Inr (Mat m (map (\<lambda>r. r[i := bs ! 0]) rows))
          else Inl ValueError
      | Mat m' rows' \<Rightarrow>
          if length rows' = 1 \<and> m' = length rows
          then Inr (Mat m (map2 (\<lambda>r b. r[i := b]) rows (hd rows')))
          else if length rows' = 1 \<and> m' = 1
          then Inr (Mat m (map (\<lambda>r. r[i := hd (hd rows')]) rows))
          else Inl ValueError)"

section \<open>The collaborators\<close>

text \<open>
  A marginal distribution (a frozen or unfrozen \<^verbatim>\<open>scipy.stats\<close> distribution) is outside
  the module. It is taken as three functions of a number and of the positional
  parameters \<^verbatim>\<open>*marg_args[i]\<close>, applied to every entry of an array.
\<close>

record marginal =
  m_cdf :: "fl \<Rightarrow> pyval list \<Rightarrow> fl"
  m_ppf :: "fl \<Rightarrow> pyval list \<Rightarrow> fl"
  m_logpdf :: "fl \<Rightarrow> pyval list \<Rightarrow> fl"

text \<open>
  A copula family is a subclass of the abstract class \<^verbatim>\<open>Copula\<close>. The abstract methods
  \<^verbatim>\<open>pdf\<close> and \<^verbatim>\<open>cdf\<close> are always supplied (the class cannot be instantiated
  otherwise); \<^verbatim>\<open>logpdf\<close>, \<^verbatim>\<open>rvs\<close> and \<^verbatim>\<open>_arg_from_tau\<close> are overridden or not.
  \<open>'r\<close> is the type of the random state.
\<close>

record 'r Copula =
  k_dim :: int
  pdf_impl :: "ndarray \<Rightarrow> pyval \<Rightarrow> pyerr + ndarray"
  cdf_impl :: "ndarray \<Rightarrow> pyval \<Rightarrow> pyerr + ndarray"
  logpdf_override :: "(ndarray \<Rightarrow> pyval \<Rightarrow> pyerr + ndarray) option"
  rvs_override :: "(int \<Rightarrow> pyval \<Rightarrow> 'r \<Rightarrow> pyerr + ndarray) option"
  arg_from_tau_override :: "(fl \<Rightarrow> pyerr + pyval) option"

section \<open>Class \<^verbatim>\<open>Copula\<close>\<close>

definition Copula_pdf :: "'r Copula \<Rightarrow> ndarray \<Rightarrow> pyval \<Rightarrow> pyerr + ndarray" where
  "Copula_pdf c u args = pdf_impl c u args"

definition Copula_cdf :: "'r Copula \<Rightarrow> ndarray \<Rightarrow> pyval \<Rightarrow> pyerr + ndarray" where
  "Copula_cdf c u args = cdf_impl c u args"

text \<open>
  The call \<^verbatim>\<open>self.pdf(u, *args)\<close> against the signature \<^verbatim>\<open>pdf(self, u, args=())\<close>: the
  tuple is unpacked into the positional parameters. An empty tuple leaves \<^verbatim>\<open>args\<close> at its
  default \<^verbatim>\<open>()\<close>, a tuple of one value binds that value to \<^verbatim>\<open>args\<close>, a longer tuple has
  too many positional arguments, and a number cannot be unpacked.
\<close>

fun pdf_unpacked :: "'r Copula \<Rightarrow> ndarray \<Rightarrow> pyval \<Rightarrow> pyerr + ndarray" where
  "pdf_unpacked c u (PTuple []) = Copula_pdf c u (PTuple [])"
| "pdf_unpacked c u (PTuple [a]) = Copula_pdf c u a"
| "pdf_unpacked c u (PTuple (a # b # bs)) = Inl TypeError"
| "pdf_unpacked c u (PNum x) = Inl TypeError"

text \<open>\<^verbatim>\<open>Copula.logpdf\<close>: \<^verbatim>\<open>return np.log(self.pdf(u, *args))\<close>.\<close>

definition base_logpdf :: "'r Copula \<Rightarrow> ndarray \<Rightarrow> pyval \<Rightarrow> pyerr + ndarray" where
  "base_logpdf c u args = pbind (pdf_unpacked c u args) (\<lambda>p. Inr (np_log p))"

definition Copula_logpdf :: "'r Copula \<Rightarrow> ndarray \<Rightarrow> pyval \<Rightarrow> pyerr + ndarray" where
  "Copula_logpdf c u args =
     (case logpdf_override c of None \<Rightarrow> base_logpdf c u args | Some f \<Rightarrow> f u args)"

text \<open>\<^verbatim>\<open>Copula.rvs\<close> and \<^verbatim>\<open>Copula._arg_from_tau\<close>: \<^verbatim>\<open>raise NotImplementedError\<close>.\<close>

definition base_rvs :: "int \<Rightarrow> pyval \<Rightarrow> 'r \<Rightarrow> pyerr + ndarray" where
  "base_rvs nobs args random_state = Inl NotImplementedError"

definition base_arg_from_tau :: "fl \<Rightarrow> pyerr + pyval" where
  "base_arg_from_tau tau = Inl NotImplementedError"

definition Copula_rvs :: "'r Copula \<Rightarrow> int \<Rightarrow> pyval \<Rightarrow> 'r \<Rightarrow> pyerr + ndarray" where
  "Copula_rvs c nobs args random_state =
     (case rvs_override c of None \<Rightarrow> base_rvs nobs args random_state
      | Some f \<Rightarrow> f nobs args random_state)"

definition arg_from_tau :: "'r Copula \<Rightarrow> fl \<Rightarrow> pyerr + pyval" where
  "arg_from_tau c tau =
     (case arg_from_tau_override c of None \<Rightarrow> base_arg_from_tau tau | Some f \<Rightarrow> f tau)"

text \<open>
  \<^verbatim>\<open>scipy.stats.kendalltau(a, b)[0]\<close> is outside the module: the functions that call it
  take it as the parameter \<open>kendalltau\<close>. \<^verbatim>\<open>np.mean\<close> of a list of numbers is their sum
  divided by their count.
\<close>

definition np_mean :: "fl list \<Rightarrow> fl" where
  "np_mean ts = fl_div_count (fl_sum ts) (length ts)"

definition tau_simulated ::
  "(ndarray \<Rightarrow> ndarray \<Rightarrow> fl) \<Rightarrow> 'r Copula \<Rightarrow> int \<Rightarrow> 'r \<Rightarrow> pyerr + fl" where
  "tau_simulated kendalltau c nobs random_state =
     pbind (Copula_rvs c nobs (PTuple []) random_state) (\<lambda>x.
     pbind (colon_index x 0) (\<lambda>a.
     pbind (colon_index x 1) (\<lambda>b.
     Inr (kendalltau a b))))"

text \<open>
  The list comprehension of \<^verbatim>\<open>fit_corr_param\<close>:
  \<^verbatim>\<open>[kendalltau(x[..., i], x[..., j])[0] for i in range(k) for j in range(i+1, k)]\<close>.
\<close>

definition index_pairs :: "int \<Rightarrow> (nat \<times> nat) list" where
  "index_pairs k = concat (map (\<lambda>i. map (\<lambda>j. (i, j)) [Suc i..<nat k]) [0..<nat k])"

fun pair_taus ::
  "(ndarray \<Rightarrow> ndarray \<Rightarrow> fl) \<Rightarrow> ndarray \<Rightarrow> (nat \<times> nat) list \<Rightarrow> pyerr + fl list" where
  "pair_taus kendalltau x [] = Inr []"
| "pair_taus kendalltau x ((i, j) # ps) =
     pbind (ellipsis_index x i) (\<lambda>a.
     pbind (ellipsis_index x j) (\<lambda>b.
     pbind (pair_taus kendalltau x ps) (\<lambda>ts.
     Inr (kendalltau a b # ts))))"

definition fit_corr_param ::
  "(ndarray \<Rightarrow> ndarray \<Rightarrow> fl) \<Rightarrow> 'r Copula \<Rightarrow> ndarray \<Rightarrow> pyerr + pyval" where
  "fit_corr_param kendalltau c x =
     pbind (shape_1 x) (\<lambda>m.
     pbind (if m = 2
            then pbind (colon_index x 0) (\<lambda>a.
                 pbind (colon_index x 1) (\<lambda>b.
                 Inr (kendalltau a b)))
            else pbind (pair_taus kendalltau x (index_pairs (k_dim c))) (\<lambda>taus.
                 Inr (np_mean taus))) (\<lambda>tau.
     arg_from_tau c tau))"

section \<open>Class \<^verbatim>\<open>CopulaDistribution\<close>\<close>

record 'r CopulaDistribution =
  copula :: "'r Copula"
  marginals :: "marginal list"
  cop_args :: pyval
  k_vars :: nat

text \<open>\<^verbatim>\<open>__init__(self, copula, marginals, cop_args=())\<close>.\<close>

definition init :: "'r Copula \<Rightarrow> marginal list \<Rightarrow> pyval \<Rightarrow> 'r CopulaDistribution" where
  "init c ms ca = \<lparr>copula = c, marginals = ms, cop_args = ca, k_vars = length ms\<rparr>"

text \<open>The two defaults: \<^verbatim>\<open>if cop_args is None: cop_args = self.cop_args\<close>, and the list of
  empty tuples for \<^verbatim>\<open>marg_args\<close>, of the length each method gives it.\<close>

definition resolve_cop_args :: "'r CopulaDistribution \<Rightarrow> pyval option \<Rightarrow> pyval" where
  "resolve_cop_args self ca = (case ca of None \<Rightarrow> cop_args self | Some a \<Rightarrow> a)"

definition empty_tuples :: "nat \<Rightarrow> pyval list list" where
  "empty_tuples n = replicate n []"

text \<open>
  The local variable \<^verbatim>\<open>marg_args\<close> of each method after its default is resolved:
  \<^verbatim>\<open>if marg_args is None: marg_args = [()] * y.shape[-1]\<close> in \<^verbatim>\<open>cdf\<close>,
  \<^verbatim>\<open>marg_args = tuple([()] * y.shape[-1])\<close> in \<^verbatim>\<open>logpdf\<close>, and
  \<^verbatim>\<open>marg_args = [()] * self.k_vars\<close> in \<^verbatim>\<open>rvs\<close>. Indexing the shape of a
  0-dimensional \<open>y\<close> raises.
\<close>

definition cdf_marg_args :: "ndarray \<Rightarrow> pyval list list option \<Rightarrow> pyerr + pyval list list" where
  "cdf_marg_args y marg_args_opt =
     (case marg_args_opt of
        None \<Rightarrow> pbind (shape_last y) (\<lambda>m. Inr (empty_tuples m))
      | Some ma \<Rightarrow> Inr ma)"

definition logpdf_marg_args ::
  "ndarray \<Rightarrow> pyval list list option \<Rightarrow> pyerr + pyval list list" where
  "logpdf_marg_args y marg_args_opt =
     (case marg_args_opt of
        None \<Rightarrow> pbind (shape_last y) (\<lambda>m. Inr (empty_tuples m))
      | Some ma \<Rightarrow> Inr ma)"

definition rvs_marg_args ::
  "'r CopulaDistribution \<Rightarrow> pyval list list option \<Rightarrow> pyval list list" where
  "rvs_marg_args self marg_args_opt =
     (case marg_args_opt of None \<Rightarrow> empty_tuples (k_vars self) | Some ma \<Rightarrow> ma)"

text \<open>The argument of \<^verbatim>\<open>ppf\<close> in \<^verbatim>\<open>rvs\<close>: \<^verbatim>\<open>0.5 + (1 - 1e-10) * (u - 0.5)\<close>.\<close>

definition contracted :: "fl \<Rightarrow> fl" where
  "contracted u =
     fl_add (Fin (1 / 2)) (fl_mul (fl_sub (Fin 1) (Fin (1 / 10 ^ 10))) (fl_sub u (Fin (1 / 2))))"

text \<open>
  The same expression on finite numbers with every operation rounded: \<open>rnd\<close> stands
  for the rounding of double precision arithmetic, applied to the literal \<^verbatim>\<open>1e-10\<close> and
  to the result of each of the four operations. With the identity for \<open>rnd\<close> it is the
  exact expression above. It is used to show that the bounds on the contracted value do
  not depend on the arithmetic being exact.
\<close>

definition contracted_rounded :: "(real \<Rightarrow> real) \<Rightarrow> real \<Rightarrow> real" where
  "contracted_rounded rnd u =
     rnd (1 / 2 + rnd (rnd (1 - rnd (1 / 10 ^ 10)) * rnd (u - 1 / 2)))"

text \<open>
  The loop of \<^verbatim>\<open>rvs\<close> over \<^verbatim>\<open>enumerate(self.marginals)\<close>, from index \<open>i\<close> on; the sample
  is the state. The right-hand side reads \<^verbatim>\<open>sample[:, i]\<close> and \<^verbatim>\<open>marg_args[i]\<close>, then
  the column is assigned.
\<close>

fun rvs_loop :: "nat \<Rightarrow> marginal list \<Rightarrow> pyval list list \<Rightarrow> ndarray \<Rightarrow> pyerr + ndarray" where
  "rvs_loop i [] marg_args sample = Inr sample"
| "rvs_loop i (distr # distrs) marg_args sample =
     pbind (colon_index sample i) (\<lambda>col.
     pbind (list_index marg_args i) (\<lambda>a.
     pbind (set_column sample i (map_array (\<lambda>u. m_ppf distr (contracted u) a) col)) (\<lambda>sample'.
     rvs_loop (Suc i) distrs marg_args sample')))"

definition rvs ::
  "'r CopulaDistribution \<Rightarrow> int \<Rightarrow> pyval option \<Rightarrow> pyval list list option \<Rightarrow> 'r
     \<Rightarrow> pyerr + ndarray" where
  "rvs self nobs cop_args_opt marg_args_opt random_state =
     (let cop_args' = resolve_cop_args self cop_args_opt;
          marg_args = rvs_marg_args self marg_args_opt
      in pbind (Copula_rvs (copula self) nobs cop_args' random_state) (\<lambda>sample.
         rvs_loop 0 (marginals self) marg_args sample))"

text \<open>
  The loop of \<^verbatim>\<open>cdf\<close> over \<^verbatim>\<open>range(self.k_vars)\<close>; the list \<^verbatim>\<open>cdf_marg\<close> is the state.
  One step reads \<^verbatim>\<open>self.marginals[i]\<close>, \<^verbatim>\<open>y[..., i]\<close> and \<^verbatim>\<open>marg_args[i]\<close>, in this order.
\<close>

fun cdf_loop ::
  "marginal list \<Rightarrow> ndarray \<Rightarrow> pyval list list \<Rightarrow> nat list \<Rightarrow> ndarray list
     \<Rightarrow> pyerr + ndarray list" where
  "cdf_loop ms y marg_args [] cdf_marg = Inr cdf_marg"
| "cdf_loop ms y marg_args (i # is) cdf_marg =
     pbind (list_index ms i) (\<lambda>distr.
     pbind (ellipsis_index y i) (\<lambda>yi.
     pbind (list_index marg_args i) (\<lambda>a.
     cdf_loop ms y marg_args is (cdf_marg @ [map_array (\<lambda>x. m_cdf distr x a) yi]))))"

definition cdf ::
  "'r CopulaDistribution \<Rightarrow> ndarray \<Rightarrow> pyval option \<Rightarrow> pyval list list option
     \<Rightarrow> pyerr + ndarray" where
  "cdf self y cop_args_opt marg_args_opt =
     (let cop_args' = resolve_cop_args self cop_args_opt
      in pbind (cdf_marg_args y marg_args_opt) (\<lambda>marg_args.
         pbind (cdf_loop (marginals self) y marg_args [0..<k_vars self] []) (\<lambda>cdf_marg.
         pbind (column_stack cdf_marg) (\<lambda>u.
         Copula_cdf (copula self) (if ndim y = 1 then squeeze u else u) cop_args'))))"

text \<open>
  The loop of \<^verbatim>\<open>logpdf\<close>; the state is \<^verbatim>\<open>lpdf\<close> and \<^verbatim>\<open>cdf_marg\<close>. The second statement
  of the body reads the same three values again.
\<close>

fun logpdf_loop ::
  "marginal list \<Rightarrow> ndarray \<Rightarrow> pyval list list \<Rightarrow> nat list \<Rightarrow> ndarray \<times> ndarray list
     \<Rightarrow> pyerr + ndarray \<times> ndarray list" where
  "logpdf_loop ms y marg_args [] st = Inr st"
| "logpdf_loop ms y marg_args (i # is) (lpdf, cdf_marg) =
     pbind (list_index ms i) (\<lambda>distr.
     pbind (ellipsis_index y i) (\<lambda>yi.
     pbind (list_index marg_args i) (\<lambda>a.
     pbind (np_iadd lpdf (map_array (\<lambda>x. m_logpdf distr x a) yi)) (\<lambda>lpdf'.
     logpdf_loop ms y marg_args is
       (lpdf', cdf_marg @ [map_array (\<lambda>x. m_cdf distr x a) yi])))))"

definition logpdf ::
  "'r CopulaDistribution \<Rightarrow> ndarray \<Rightarrow> pyval option \<Rightarrow> pyval list list option
     \<Rightarrow> pyerr + ndarray" where
  "logpdf self y cop_args_opt marg_args_opt =
     (let cop_args' = resolve_cop_args self cop_args_opt
      in pbind (logpdf_marg_args y marg_args_opt) (\<lambda>marg_args.
         pbind (logpdf_loop (marginals self) y marg_args [0..<k_vars self] (Scalar (Fin 0), []))
           (\<lambda>(lpdf, cdf_marg).
         pbind (column_stack cdf_marg) (\<lambda>u.
         pbind (Copula_logpdf (copula self) (if ndim y = 1 then squeeze u else u) cop_args')
           (\<lambda>c.
         np_iadd lpdf c)))))"

definition pdf ::
  "'r CopulaDistribution \<Rightarrow> ndarray \<Rightarrow> pyval option \<Rightarrow> pyval list list option
     \<Rightarrow> pyerr + ndarray" where
  "pdf self y cop_args_opt marg_args_opt =
     pbind (logpdf self y cop_args_opt marg_args_opt) (\<lambda>l. Inr (np_exp l))"

text \<open>
  The first \<open>k\<close> entries of the last axis, \<^verbatim>\<open>y[..., :k]\<close>: the part of an observation
  that \<^verbatim>\<open>cdf\<close> and \<^verbatim>\<open>logpdf\<close> read when \<open>y\<close> has more than \<open>k\<close> columns. It is used
  in statements only.
\<close>

fun take_columns :: "nat \<Rightarrow> ndarray \<Rightarrow> ndarray" where
  "take_columns k (Scalar x) = Scalar x"
| "take_columns k (Vec xs) = Vec (take k xs)"
| "take_columns k (Mat m rows) = Mat (min k m) (map (take k) rows)"

section \<open>Example collaborators\<close>

text \<open>
  Concrete collaborators on which the theorems below are instantiated: a logistic and a
  uniform marginal, and the independence copula in two dimensions, whose \<^verbatim>\<open>rvs\<close> returns
  the fixed draw \<open>(0, 1)\<close> in every row (the two boundary values). \<open>ex_abstract\<close> overrides
  neither \<^verbatim>\<open>rvs\<close> nor \<^verbatim>\<open>_arg_from_tau\<close>; \<open>ex_two_param\<close> reads a tuple of two parameters.
\<close>

definition ex_logistic :: marginal where
  "ex_logistic =
     \<lparr>m_cdf = (\<lambda>x a. case x of Fin r \<Rightarrow> Fin (1 / (1 + exp (- r))) | PInf \<Rightarrow> Fin 1
                         | NInf \<Rightarrow> Fin 0 | NaN \<Rightarrow> NaN),
      m_ppf = (\<lambda>q a. case q of
                 Fin r \<Rightarrow> if 0 < r \<and> r < 1 then Fin (ln (r / (1 - r)))
                          else if r = 0 then NInf else if r = 1 then PInf else NaN
               | PInf \<Rightarrow> NaN | NInf \<Rightarrow> NaN | NaN \<Rightarrow> NaN),
      m_logpdf = (\<lambda>x a. case x of Fin r \<Rightarrow> Fin (- r - 2 * ln (1 + exp (- r)))
                         | PInf \<Rightarrow> NInf | NInf \<Rightarrow> NInf | NaN \<Rightarrow> NaN)\<rparr>"

definition ex_uniform :: marginal where
  "ex_uniform =
     \<lparr>m_cdf = (\<lambda>x a. case x of Fin r \<Rightarrow> Fin (min 1 (max 0 r)) | PInf \<Rightarrow> Fin 1
                         | NInf \<Rightarrow> Fin 0 | NaN \<Rightarrow> NaN),
      m_ppf = (\<lambda>q a. case q of Fin r \<Rightarrow> if 0 \<le> r \<and> r \<le> 1 then Fin r else NaN
                         | PInf \<Rightarrow> NaN | NInf \<Rightarrow> NaN | NaN \<Rightarrow> NaN),
      m_logpdf = (\<lambda>x a. case x of Fin r \<Rightarrow> if 0 \<le> r \<and> r \<le> 1 then Fin 0 else NInf
                         | PInf \<Rightarrow> NInf | NInf \<Rightarrow> NInf | NaN \<Rightarrow> NaN)\<rparr>"

fun row_products :: "ndarray \<Rightarrow> pyerr + ndarray" where
  "row_products (Scalar x) = Inl ValueError"
| "row_products (Vec xs) = Inr (Scalar (foldl fl_mul (Fin 1) xs))"
| "row_products (Mat m rows) = Inr (Vec (map (foldl fl_mul (Fin 1)) rows))"

fun row_ones :: "ndarray \<Rightarrow> pyerr + ndarray" where
  "row_ones (Scalar x) = Inl ValueError"
| "row_ones (Vec xs) = Inr (Scalar (Fin 1))"
| "row_ones (Mat m rows) = Inr (Vec (map (\<lambda>r. Fin 1) rows))"

definition ex_indep :: "unit Copula" where
  "ex_indep =
     \<lparr>k_dim = 2,
      pdf_impl = (\<lambda>u args. row_ones u),
      cdf_impl = (\<lambda>u args. row_products u),
      logpdf_override = None,
      rvs_override = Some (\<lambda>nobs args rs. Inr (Mat 2 (replicate (nat nobs) [Fin 0, Fin 1]))),
      arg_from_tau_override = Some (\<lambda>tau. Inr (PNum tau))\<rparr>"

definition ex_abstract :: "unit Copula" where
  "ex_abstract = ex_indep\<lparr>rvs_override := None, arg_from_tau_override := None\<rparr>"

definition ex_two_param :: "unit Copula" where
  "ex_two_param =
     ex_indep\<lparr>pdf_impl := (\<lambda>u args. case args of
                                PTuple [PNum a, PNum b] \<Rightarrow> row_ones u
                              | _ \<Rightarrow> Inl TypeError)\<rparr>"

definition ex_joint :: "unit CopulaDistribution" where
  "ex_joint = init ex_indep [ex_uniform, ex_uniform] (PTuple [])"

definition ex_joint_logistic :: "unit CopulaDistribution" where
  "ex_joint_logistic = init ex_indep [ex_logistic, ex_logistic] (PTuple [])"

text \<open>A rank statistic standing for \<^verbatim>\<open>kendalltau\<close>: the sign of the first concordance.\<close>

fun ex_kendalltau :: "ndarray \<Rightarrow> ndarray \<Rightarrow> fl" where
  "ex_kendalltau (Vec (Fin a # Fin a' # as)) (Vec (Fin b # Fin b' # bs)) =
     Fin (sgn ((a' - a) * (b' - b)))"
| "ex_kendalltau a b = NaN"

section \<open>Basic facts\<close>

lemma pbind_Inr [simp]: "pbind (Inr v) f = f v"
  by (simp add: pbind_def)

lemma pbind_Inl [simp]: "pbind (Inl e) f = Inl e"
  by (simp add: pbind_def)

lemma list_index_in [simp]: "i < length xs \<Longrightarrow> list_index xs i = Inr (xs ! i)"
  by (simp add: list_index_def)

lemma list_index_out [simp]: "\<not> i < length xs \<Longrightarrow> list_index xs i = Inl IndexError"
  by (simp add: list_index_def)

lemma fl_add_zero_left [simp]: "fl_add (Fin 0) x = x"
  by (cases x) simp_all

lemma marg_args_Some [simp]:
  "cdf_marg_args y (Some ma) = Inr ma"
  "logpdf_marg_args y (Some ma) = Inr ma"
  "rvs_marg_args self (Some ma) = ma"
  by (simp_all add: cdf_marg_args_def logpdf_marg_args_def rvs_marg_args_def)

lemma marg_args_None [simp]:
  "cdf_marg_args y None = pbind (shape_last y) (\<lambda>m. Inr (empty_tuples m))"
  "logpdf_marg_args y None = pbind (shape_last y) (\<lambda>m. Inr (empty_tuples m))"
  "rvs_marg_args self None = empty_tuples (k_vars self)"
  by (simp_all add: cdf_marg_args_def logpdf_marg_args_def rvs_marg_args_def)

lemma contracted_Fin: "contracted (Fin x) = Fin (1 / 2 + (1 - 1 / 10 ^ 10) * (x - 1 / 2))"
  by (simp add: contracted_def fl_sub_def)

lemma contracted_interior:
  assumes "0 \<le> x" and "x \<le> 1"
  shows "0 < 1 / 2 + (1 - 1 / 10 ^ 10) * (x - 1 / 2)"
    and "1 / 2 + (1 - 1 / 10 ^ 10) * (x - 1 / 2) < (1::real)"
proof -
  let ?a = "(1 - 1 / 10 ^ 10) :: real"
  have a: "0 < ?a" "?a < 1" by simp_all
  have lo: "- (1 / 2) \<le> x - 1 / 2" and hi: "x - 1 / 2 \<le> 1 / 2"
    using assms by simp_all
  have "?a * (- (1 / 2)) \<le> ?a * (x - 1 / 2)"
    using a(1) lo by (intro mult_left_mono) simp_all
  moreover have "- (1 / 2) < ?a * (- (1 / 2))" by simp
  ultimately show "0 < 1 / 2 + ?a * (x - 1 / 2)" by linarith
  have "?a * (x - 1 / 2) \<le> ?a * (1 / 2)"
    using a(1) hi by (intro mult_left_mono) simp_all
  moreover have "?a * (1 / 2) < 1 / 2" by simp
  ultimately show "1 / 2 + ?a * (x - 1 / 2) < 1" by linarith
qed

text \<open>
  The bounds survive rounding: for every rounding \<open>rnd\<close> that is monotone and leaves the
  listed binary fractions unchanged (each has at most 35 significant bits, so round to
  nearest on doubles is such a rounding, and so is the identity), the rounded expression
  maps \<open>[0, 1]\<close> into \<open>[2\<^sup>-\<^sup>3\<^sup>5, 1 - 2\<^sup>-\<^sup>3\<^sup>5]\<close>.
\<close>

lemma contracted_rounded_interior:
  assumes mono: "\<And>x y. x \<le> y \<Longrightarrow> rnd x \<le> rnd y"
    and half: "rnd (1 / 2) = 1 / 2" "rnd (- (1 / 2)) = - (1 / 2)"
    and eps: "rnd (1 / 2 ^ 34) = 1 / 2 ^ 34" "rnd (1 / 2 ^ 33) = 1 / 2 ^ 33"
    and one: "rnd (1 - 1 / 2 ^ 34) = 1 - 1 / 2 ^ 34" "rnd (1 - 1 / 2 ^ 33) = 1 - 1 / 2 ^ 33"
    and prod: "rnd (1 / 2 - 1 / 2 ^ 35) = 1 / 2 - 1 / 2 ^ 35"
              "rnd (- (1 / 2 - 1 / 2 ^ 35)) = - (1 / 2 - 1 / 2 ^ 35)"
    and ends: "rnd (1 / 2 ^ 35) = 1 / 2 ^ 35" "rnd (1 - 1 / 2 ^ 35) = 1 - 1 / 2 ^ 35"
    and u: "0 \<le> u" "u \<le> 1"
  shows "0 < contracted_rounded rnd u \<and> contracted_rounded rnd u < 1"
proof -
  define e where "e = rnd (1 / 10 ^ 10)"
  define a where "a = rnd (1 - e)"
  define d where "d = rnd (u - 1 / 2)"
  define p where "p = rnd (a * d)"
  have e: "1 / 2 ^ 34 \<le> e" "e \<le> 1 / 2 ^ 33"
    using mono[of "1 / 2 ^ 34" "1 / 10 ^ 10"] mono[of "1 / 10 ^ 10" "1 / 2 ^ 33"] eps
    by (simp_all add: e_def)
  have a: "1 - 1 / 2 ^ 33 \<le> a" "a \<le> 1 - 1 / 2 ^ 34"
    using mono[of "1 - 1 / 2 ^ 33" "1 - e"] mono[of "1 - e" "1 - 1 / 2 ^ 34"] one e
    by (simp_all add: a_def)
  have a0: "0 \<le> a" using a(1) by simp
  have d: "- (1 / 2) \<le> d" "d \<le> 1 / 2"
    using mono[of "- (1 / 2)" "u - 1 / 2"] mono[of "u - 1 / 2" "1 / 2"] half u
    by (simp_all add: d_def)
  have "a * d \<le> a * (1 / 2)" using a0 d(2) by (rule mult_left_mono[rotated])
  then have up: "a * d \<le> 1 / 2 - 1 / 2 ^ 35" using a(2) by simp
  have "a * (- (1 / 2)) \<le> a * d" using a0 d(1) by (rule mult_left_mono[rotated])
  then have lo: "- (1 / 2 - 1 / 2 ^ 35) \<le> a * d" using a(2) by simp
  have p: "- (1 / 2 - 1 / 2 ^ 35) \<le> p" "p \<le> 1 / 2 - 1 / 2 ^ 35"
    using mono[OF lo] mono[OF up] prod by (simp_all add: p_def)
  have "1 / 2 ^ 35 \<le> 1 / 2 + p" "1 / 2 + p \<le> 1 - 1 / 2 ^ 35"
    using p by simp_all
  then have "1 / 2 ^ 35 \<le> rnd (1 / 2 + p)" "rnd (1 / 2 + p) \<le> 1 - 1 / 2 ^ 35"
    using mono[of "1 / 2 ^ 35" "1 / 2 + p"] mono[of "1 / 2 + p" "1 - 1 / 2 ^ 35"] ends
    by simp_all
  moreover have "contracted_rounded rnd u = rnd (1 / 2 + p)"
    by (simp add: contracted_rounded_def p_def a_def d_def e_def)
  ultimately show ?thesis by simp
qed

lemma contracted_rounded_exact:
  "contracted (Fin u) = Fin (contracted_rounded (\<lambda>x. x) u)"
  by (simp add: contracted_Fin contracted_rounded_def)

section \<open>The density is the exponential of the log-density\<close>

text \<open>
  Claim C6. \<^verbatim>\<open>CopulaDistribution.pdf\<close> has no computation of its own: it fails exactly
  when \<^verbatim>\<open>logpdf\<close> fails, with the same error, and otherwise returns the exponential of
  every entry of what \<^verbatim>\<open>logpdf\<close> returns on the same arguments.
\<close>

theorem pdf_is_exp_of_logpdf:
  "pdf self y cop_args_opt marg_args_opt =
     (case logpdf self y cop_args_opt marg_args_opt of
        Inl e \<Rightarrow> Inl e
      | Inr l \<Rightarrow> Inr (map_array fl_exp l))"
  by (simp add: pdf_def pbind_def np_exp_def)

section \<open>The loops of \<^verbatim>\<open>cdf\<close> and \<^verbatim>\<open>logpdf\<close>\<close>

lemma cdf_loop_Mat:
  "\<forall>i\<in>set is. i < length ms \<and> i < m \<and> i < length ma \<Longrightarrow>
   cdf_loop ms (Mat m rows) ma is acc =
     Inr (acc @ map (\<lambda>i. Vec (map (\<lambda>r. m_cdf (ms ! i) (r ! i) (ma ! i)) rows)) is)"
  by (induction "is" arbitrary: acc) (simp_all add: comp_def)

lemma cdf_loop_Vec:
  "\<forall>i\<in>set is. i < length ms \<and> i < length ys \<and> i < length ma \<Longrightarrow>
   cdf_loop ms (Vec ys) ma is acc =
     Inr (acc @ map (\<lambda>i. Scalar (m_cdf (ms ! i) (ys ! i) (ma ! i))) is)"
  by (induction "is" arbitrary: acc) simp_all

lemma logpdf_loop_Mat:
  "\<forall>i\<in>set is. i < length ms \<and> i < m \<and> i < length ma \<Longrightarrow> length acc = length rows \<Longrightarrow>
   logpdf_loop ms (Mat m rows) ma is (Vec acc, cm) =
     Inr (Vec (map2 (\<lambda>a r. foldl fl_add a (map (\<lambda>i. m_logpdf (ms ! i) (r ! i) (ma ! i)) is))
                 acc rows),
          cm @ map (\<lambda>i. Vec (map (\<lambda>r. m_cdf (ms ! i) (r ! i) (ma ! i)) rows)) is)"
proof (induction "is" arbitrary: acc cm)
  case Nil
  then show ?case by (auto intro: nth_equalityI)
next
  case (Cons i "is")
  have len: "length (map2 fl_add acc (map (\<lambda>r. m_logpdf (ms ! i) (r ! i) (ma ! i)) rows))
               = length rows"
    using Cons.prems by simp
  show ?case
    using Cons.prems Cons.IH[OF _ len]
    apply (simp add: comp_def)
    apply (rule nth_equalityI)
     apply simp_all
    done
qed

lemma logpdf_loop_Mat_start:
  assumes "\<forall>i\<in>set is. i < length ms \<and> i < m \<and> i < length ma" and "is \<noteq> []"
  shows "logpdf_loop ms (Mat m rows) ma is (Scalar (Fin 0), []) =
     Inr (Vec (map (\<lambda>r. fl_sum (map (\<lambda>i. m_logpdf (ms ! i) (r ! i) (ma ! i)) is)) rows),
          map (\<lambda>i. Vec (map (\<lambda>r. m_cdf (ms ! i) (r ! i) (ma ! i)) rows)) is)"
proof (cases "is")
  case Nil
  with assms show ?thesis by simp
next
  case (Cons i js)
  have "\<forall>j\<in>set js. j < length ms \<and> j < m \<and> j < length ma"
    using assms(1) Cons by simp
  from logpdf_loop_Mat[OF this, of "map (\<lambda>r. m_logpdf (ms ! i) (r ! i) (ma ! i)) rows" rows]
  show ?thesis
    using assms(1) Cons
    apply (simp add: comp_def fl_sum_def)
    apply (rule nth_equalityI)
     apply simp_all
    done
qed

lemma logpdf_loop_Vec:
  "\<forall>i\<in>set is. i < length ms \<and> i < length ys \<and> i < length ma \<Longrightarrow>
   logpdf_loop ms (Vec ys) ma is (Scalar s, cm) =
     Inr (Scalar (foldl fl_add s (map (\<lambda>i. m_logpdf (ms ! i) (ys ! i) (ma ! i)) is)),
          cm @ map (\<lambda>i. Scalar (m_cdf (ms ! i) (ys ! i) (ma ! i))) is)"
  by (induction "is" arbitrary: s cm) simp_all

lemma concatenate_1_Vecs:
  "length R = length rows \<Longrightarrow>
   concatenate_1 (m, R) (map (\<lambda>i. Vec (map (\<lambda>r. F i r) rows)) is) =
     Inr (Mat (m + length is) (map2 (\<lambda>r0 r. r0 @ map (\<lambda>i. F i r) is) R rows))"
proof (induction "is" arbitrary: m R)
  case Nil
  then show ?case by (auto intro: nth_equalityI)
next
  case (Cons i "is")
  have len: "length (map2 (@) R (map (\<lambda>x. [x]) (map (F i) rows))) = length rows"
    using Cons.prems by simp
  show ?case
    using Cons.prems Cons.IH[OF len]
    apply (simp add: comp_def)
    apply (rule nth_equalityI)
     apply simp_all
    done
qed

lemma column_stack_Vecs:
  "is \<noteq> [] \<Longrightarrow>
   column_stack (map (\<lambda>i. Vec (map (\<lambda>r. F i r) rows)) is) =
     Inr (Mat (length is) (map (\<lambda>r. map (\<lambda>i. F i r) is) rows))"
proof (cases "is")
  case Nil
  assume "is \<noteq> []" with Nil show ?thesis by simp
next
  case (Cons i js)
  have "length (map (\<lambda>x. [x]) (map (F i) rows)) = length rows" by simp
  from concatenate_1_Vecs[OF this, of 1 F js]
  show ?thesis using Cons
    apply (simp add: comp_def)
    apply (rule nth_equalityI)
     apply simp_all
    done
qed

lemma concatenate_1_Scalars:
  "length R = 1 \<Longrightarrow>
   concatenate_1 (m, R) (map (\<lambda>i. Scalar (F i)) is) =
     Inr (Mat (m + length is) [hd R @ map F is])"
proof (induction "is" arbitrary: m R)
  case Nil
  then show ?case by (cases R) simp_all
next
  case (Cons i "is")
  then show ?case by (cases R) simp_all
qed

lemma column_stack_Scalars:
  "is \<noteq> [] \<Longrightarrow>
   column_stack (map (\<lambda>i. Scalar (F i)) is) = Inr (Mat (length is) [map F is])"
proof (cases "is")
  case Nil
  assume "is \<noteq> []" with Nil show ?thesis by simp
next
  case (Cons i js)
  from concatenate_1_Scalars[of "[[F i]]" 1 F js]
  show ?thesis using Cons by simp
qed

text \<open>The default of \<^verbatim>\<open>marg_args\<close> and a list that is long enough, read below \<open>k\<close>.\<close>

lemma empty_tuples_nth [simp]: "i < n \<Longrightarrow> empty_tuples n ! i = []"
  by (simp add: empty_tuples_def)

lemma length_empty_tuples [simp]: "length (empty_tuples n) = n"
  by (simp add: empty_tuples_def)

lemma init_fields [simp]:
  "copula (init c ms ca) = c" "marginals (init c ms ca) = ms"
  "cop_args (init c ms ca) = ca" "k_vars (init c ms ca) = length ms"
  by (simp_all add: init_def)

text \<open>What \<^verbatim>\<open>cdf\<close> and \<^verbatim>\<open>logpdf\<close> compute on a matrix with at least \<open>k_vars\<close> columns.\<close>

lemma cdf_Mat_explicit:
  assumes "ms \<noteq> []" and "length ms \<le> m"
    and "length ms \<le> length ma"
  shows "cdf (init c ms ca0) (Mat m rows) cop_args_opt (Some ma) =
     Copula_cdf c
       (Mat (length ms) (map (\<lambda>r. map (\<lambda>i. m_cdf (ms ! i) (r ! i) (ma ! i)) [0..<length ms]) rows))
       (resolve_cop_args (init c ms ca0) cop_args_opt)"
proof -
  have idx: "\<forall>i\<in>set [0..<length ms]. i < length ms \<and> i < m \<and> i < length ma"
    using assms by auto
  have ne: "[0..<length ms] \<noteq> []" using assms(1) by simp
  show ?thesis
    using column_stack_Vecs[OF ne, of "\<lambda>i r. m_cdf (ms ! i) (r ! i) (ma ! i)" rows]
    by (simp add: cdf_def cdf_loop_Mat[OF idx])
qed

lemma logpdf_Mat_explicit:
  assumes "ms \<noteq> []" and "length ms \<le> m"
    and "length ms \<le> length ma"
  shows "logpdf (init c ms ca0) (Mat m rows) cop_args_opt (Some ma) =
     pbind (Copula_logpdf c
              (Mat (length ms)
                 (map (\<lambda>r. map (\<lambda>i. m_cdf (ms ! i) (r ! i) (ma ! i)) [0..<length ms]) rows))
              (resolve_cop_args (init c ms ca0) cop_args_opt))
       (\<lambda>cl. np_iadd
                (Vec (map (\<lambda>r. fl_sum (map (\<lambda>i. m_logpdf (ms ! i) (r ! i) (ma ! i))
                                        [0..<length ms])) rows)) cl)"
proof -
  have idx: "\<forall>i\<in>set [0..<length ms]. i < length ms \<and> i < m \<and> i < length ma"
    using assms by auto
  have ne: "[0..<length ms] \<noteq> []" using assms(1) by simp
  show ?thesis
    using column_stack_Vecs[OF ne, of "\<lambda>i r. m_cdf (ms ! i) (r ! i) (ma ! i)" rows]
    by (simp add: logpdf_def logpdf_loop_Mat_start[OF idx ne])
qed

lemma cdf_default_marg_args_Mat:
  "cdf self (Mat m rows) cop_args_opt None =
   cdf self (Mat m rows) cop_args_opt (Some (empty_tuples m))"
  by (simp add: cdf_def)

lemma logpdf_default_marg_args_Mat:
  "logpdf self (Mat m rows) cop_args_opt None =
   logpdf self (Mat m rows) cop_args_opt (Some (empty_tuples m))"
  by (simp add: logpdf_def)

section \<open>The decomposition of the log-density\<close>

text \<open>
  Claim C1. Let \<open>y\<close> be a matrix of observations with one column for each of the
  \<open>k_vars \<ge> 1\<close> marginals, and let \<open>marg_args\<close> hold a tuple for each marginal (the
  default, a list of empty tuples, does). Then \<^verbatim>\<open>logpdf(y, cop_args, marg_args)\<close> is the
  array whose entry for a row is the sum over \<open>i\<close> of
  \<^verbatim>\<open>marginals[i].logpdf(y[row, i], *marg_args[i])\<close>, plus \<^verbatim>\<open>copula.logpdf(u, cop_args)\<close>,
  where \<open>u\<close> is the matrix of the values \<^verbatim>\<open>marginals[i].cdf(y[row, i], *marg_args[i])\<close> and
  \<open>cop_args\<close> defaults to the constructor's. An error of \<^verbatim>\<open>copula.logpdf\<close> is passed on.
\<close>

theorem logpdf_sklar_decomposition:
  assumes "wf_array (Mat (length ms) rows)" and "ms \<noteq> []"
    and "ma = (case marg_args_opt of None \<Rightarrow> empty_tuples (length ms) | Some a \<Rightarrow> a)"
    and "length ms \<le> length ma"
  shows "logpdf (init c ms ca0) (Mat (length ms) rows) cop_args_opt marg_args_opt =
     pbind (Copula_logpdf c
              (Mat (length ms)
                 (map (\<lambda>r. map (\<lambda>i. m_cdf (ms ! i) (r ! i) (ma ! i)) [0..<length ms]) rows))
              (case cop_args_opt of None \<Rightarrow> ca0 | Some a \<Rightarrow> a))
       (\<lambda>cl. np_iadd
                (Vec (map (\<lambda>r. fl_sum (map (\<lambda>i. m_logpdf (ms ! i) (r ! i) (ma ! i))
                                        [0..<length ms])) rows)) cl)"
proof -
  have "logpdf (init c ms ca0) (Mat (length ms) rows) cop_args_opt marg_args_opt =
        logpdf (init c ms ca0) (Mat (length ms) rows) cop_args_opt (Some ma)"
    using assms(3) by (cases marg_args_opt) (simp_all add: logpdf_default_marg_args_Mat)
  also have "\<dots> = pbind (Copula_logpdf c
              (Mat (length ms)
                 (map (\<lambda>r. map (\<lambda>i. m_cdf (ms ! i) (r ! i) (ma ! i)) [0..<length ms]) rows))
              (resolve_cop_args (init c ms ca0) cop_args_opt))
       (\<lambda>cl. np_iadd
                (Vec (map (\<lambda>r. fl_sum (map (\<lambda>i. m_logpdf (ms ! i) (r ! i) (ma ! i))
                                        [0..<length ms])) rows)) cl)"
    using assms(2,4) by (intro logpdf_Mat_explicit) simp_all
  finally show ?thesis by (cases cop_args_opt) (simp_all add: resolve_cop_args_def)
qed

theorem logpdf_sklar_decomposition_witness:
  "logpdf ex_joint (Mat 2 [[Fin (1 / 2), Fin (1 / 4)], [Fin 2, Fin (1 / 3)]]) None None =
     Inr (Vec [Fin 0, NInf])"
  using logpdf_sklar_decomposition
          [of "[ex_uniform, ex_uniform]" "[[Fin (1 / 2), Fin (1 / 4)], [Fin 2, Fin (1 / 3)]]"
              "empty_tuples 2" None ex_indep "PTuple []" None]
  by (simp add: ex_joint_def ex_indep_def ex_uniform_def Copula_logpdf_def base_logpdf_def
        Copula_pdf_def np_log_def fl_sum_def upt_conv_Cons numeral_2_eq_2)

section \<open>The loop of \<^verbatim>\<open>rvs\<close>\<close>

lemma set_column_of_column:
  "i < m \<Longrightarrow>
   set_column (Mat m rows) i (Vec (map (\<lambda>r. g (r ! i)) rows)) =
     Inr (Mat m (map (\<lambda>r. r[i := g (r ! i)]) rows))"
  by (auto intro: nth_equalityI)

lemma rvs_loop_Mat:
  assumes "list_all (\<lambda>r. length r = m) rows"
    and "i0 + length ds \<le> m" and "i0 + length ds \<le> length ma"
  shows "rvs_loop i0 ds ma (Mat m rows) =
     Inr (Mat m (map (\<lambda>r. map (\<lambda>j. if i0 \<le> j \<and> j < i0 + length ds
                                     then m_ppf (ds ! (j - i0)) (contracted (r ! j)) (ma ! j)
                                     else r ! j) [0..<m]) rows))"
  using assms
proof (induction ds arbitrary: i0 rows)
  case Nil
  have one: "map ((!) r) [0..<m] = r" if "length r = m" for r
    using that map_nth[of r] by simp
  have "map (\<lambda>r. map ((!) r) [0..<m]) rows = rows"
    using Nil.prems(1) by (induction rows) (simp_all add: one)
  moreover have none: "(i0 \<le> j \<and> j < i0) = False" for j by auto
  ultimately show ?case by (simp add: none)
next
  case (Cons d ds)
  let ?g = "\<lambda>u. m_ppf d (contracted u) (ma ! i0)"
  let ?rows1 = "map (\<lambda>r. r[i0 := ?g (r ! i0)]) rows"
  have i0: "i0 < m" "i0 < length ma" using Cons.prems by simp_all
  have wf1: "list_all (\<lambda>r. length r = m) ?rows1"
    using Cons.prems(1) by (simp add: list_all_iff)
  have step: "rvs_loop i0 (d # ds) ma (Mat m rows) = rvs_loop (Suc i0) ds ma (Mat m ?rows1)"
    using i0 set_column_of_column[OF i0(1), of rows ?g] by (simp add: comp_def)
  have rest: "rvs_loop (Suc i0) ds ma (Mat m ?rows1) =
     Inr (Mat m (map (\<lambda>r. map (\<lambda>j. if Suc i0 \<le> j \<and> j < Suc i0 + length ds
                                     then m_ppf (ds ! (j - Suc i0)) (contracted (r ! j)) (ma ! j)
                                     else r ! j) [0..<m]) ?rows1))"
    using Cons.prems by (intro Cons.IH[OF wf1]) simp_all
  have row: "map (\<lambda>j. if Suc i0 \<le> j \<and> j < Suc i0 + length ds
                       then m_ppf (ds ! (j - Suc i0)) (contracted (r[i0 := ?g (r ! i0)] ! j)) (ma ! j)
                       else r[i0 := ?g (r ! i0)] ! j) [0..<m] =
             map (\<lambda>j. if i0 \<le> j \<and> j < i0 + length (d # ds)
                       then m_ppf ((d # ds) ! (j - i0)) (contracted (r ! j)) (ma ! j)
                       else r ! j) [0..<m]"
    if r: "length r = m" for r
  proof (rule map_cong[OF refl])
    fix j assume "j \<in> set [0..<m]"
    then have j: "j < length r" using r by simp
    consider "j < i0" | "j = i0" | "i0 < j" by linarith
    then show "(if Suc i0 \<le> j \<and> j < Suc i0 + length ds
                then m_ppf (ds ! (j - Suc i0)) (contracted (r[i0 := ?g (r ! i0)] ! j)) (ma ! j)
                else r[i0 := ?g (r ! i0)] ! j) =
               (if i0 \<le> j \<and> j < i0 + length (d # ds)
                then m_ppf ((d # ds) ! (j - i0)) (contracted (r ! j)) (ma ! j)
                else r ! j)"
    proof cases
      case 1
      then show ?thesis by simp
    next
      case 2
      then show ?thesis using j by simp
    next
      case 3
      then have "(d # ds) ! (j - i0) = ds ! (j - Suc i0)"
        by (simp add: nth_Cons')
      with 3 show ?thesis by simp
    qed
  qed
  have "map (\<lambda>r. map (\<lambda>j. if Suc i0 \<le> j \<and> j < Suc i0 + length ds
                                     then m_ppf (ds ! (j - Suc i0)) (contracted (r ! j)) (ma ! j)
                                     else r ! j) [0..<m]) ?rows1 =
        map (\<lambda>r. map (\<lambda>j. if i0 \<le> j \<and> j < i0 + length (d # ds)
                                     then m_ppf ((d # ds) ! (j - i0)) (contracted (r ! j)) (ma ! j)
                                     else r ! j) [0..<m]) rows"
    unfolding map_map comp_def
  proof (rule map_cong[OF refl])
    fix r assume "r \<in> set rows"
    then have "length r = m" using Cons.prems(1) by (simp add: list_all_iff)
    from row[OF this]
    show "map (\<lambda>j. if Suc i0 \<le> j \<and> j < Suc i0 + length ds
                    then m_ppf (ds ! (j - Suc i0)) (contracted (r[i0 := ?g (r ! i0)] ! j)) (ma ! j)
                    else r[i0 := ?g (r ! i0)] ! j) [0..<m] =
          map (\<lambda>j. if i0 \<le> j \<and> j < i0 + length (d # ds)
                    then m_ppf ((d # ds) ! (j - i0)) (contracted (r ! j)) (ma ! j)
                    else r ! j) [0..<m]" .
  qed
  with step rest show ?case by simp
qed

text \<open>
  The sample \<^verbatim>\<open>rvs\<close> returns when the copula's draw is a well-formed matrix with one
  column for each marginal: every entry is the marginal's \<^verbatim>\<open>ppf\<close> at the contracted draw.
\<close>

lemma rvs_explicit:
  assumes "Copula_rvs c nobs (resolve_cop_args (init c ms ca0) cop_args_opt) random_state =
             Inr (Mat (length ms) rows)"
    and "wf_array (Mat (length ms) rows)"
    and "ma = (case marg_args_opt of None \<Rightarrow> empty_tuples (length ms) | Some a \<Rightarrow> a)"
    and "length ms \<le> length ma"
  shows "rvs (init c ms ca0) nobs cop_args_opt marg_args_opt random_state =
     Inr (Mat (length ms)
            (map (\<lambda>r. map (\<lambda>i. m_ppf (ms ! i) (contracted (r ! i)) (ma ! i)) [0..<length ms])
               rows))"
proof -
  have wf: "list_all (\<lambda>r. length r = length ms) rows" using assms(2) by simp
  have "rvs (init c ms ca0) nobs cop_args_opt marg_args_opt random_state =
        rvs_loop 0 ms ma (Mat (length ms) rows)"
    using assms(1,3) by (cases marg_args_opt) (simp_all add: rvs_def)
  also have "\<dots> = Inr (Mat (length ms)
       (map (\<lambda>r. map (\<lambda>j. if 0 \<le> j \<and> j < 0 + length ms
                           then m_ppf (ms ! (j - 0)) (contracted (r ! j)) (ma ! j)
                           else r ! j) [0..<length ms]) rows))"
    using assms(4) by (intro rvs_loop_Mat[OF wf]) simp_all
  also have "\<dots> = Inr (Mat (length ms)
            (map (\<lambda>r. map (\<lambda>i. m_ppf (ms ! i) (contracted (r ! i)) (ma ! i)) [0..<length ms])
               rows))"
    by simp
  finally show ?thesis .
qed

section \<open>Sampling\<close>

text \<open>
  Claim C3. Let the copula's draw be a matrix \<open>u\<close> with one column for each marginal, and
  let \<open>marg_args\<close> hold a tuple for each marginal (the default does). Then \<^verbatim>\<open>rvs\<close> returns
  a matrix of the same shape whose column \<open>i\<close> is \<^verbatim>\<open>marginals[i].ppf\<close>, with
  \<^verbatim>\<open>*marg_args[i]\<close>, applied to the contracted column \<open>i\<close> of \<open>u\<close>; the contraction of a
  number \<open>x\<close> is \<open>0.5 + (1 - 1e-10) * (x - 0.5)\<close>. No bound on \<open>nobs\<close> is needed.
\<close>

theorem rvs_column_transform:
  assumes "Copula_rvs c nobs (case cop_args_opt of None \<Rightarrow> ca0 | Some a \<Rightarrow> a) random_state =
             Inr (Mat (length ms) rows)"
    and "wf_array (Mat (length ms) rows)"
    and "ma = (case marg_args_opt of None \<Rightarrow> empty_tuples (length ms) | Some a \<Rightarrow> a)"
    and "length ms \<le> length ma"
  shows "rvs (init c ms ca0) nobs cop_args_opt marg_args_opt random_state =
           Inr (Mat (length ms)
                  (map (\<lambda>r. map (\<lambda>i. m_ppf (ms ! i) (contracted (r ! i)) (ma ! i))
                               [0..<length ms]) rows))
       \<and> (\<forall>i<length ms.
            pbind (rvs (init c ms ca0) nobs cop_args_opt marg_args_opt random_state)
                  (\<lambda>sample. colon_index sample i) =
            pbind (colon_index (Mat (length ms) rows) i)
                  (\<lambda>u_i. Inr (map_array (\<lambda>u. m_ppf (ms ! i) (contracted u) (ma ! i)) u_i)))
       \<and> (\<forall>x. contracted (Fin x) = Fin (1 / 2 + (1 - 1 / 10 ^ 10) * (x - 1 / 2)))"
proof -
  have draw: "Copula_rvs c nobs (resolve_cop_args (init c ms ca0) cop_args_opt) random_state =
             Inr (Mat (length ms) rows)"
    using assms(1) by (cases cop_args_opt) (simp_all add: resolve_cop_args_def)
  note whole = rvs_explicit[OF draw assms(2,3,4)]
  have "pbind (rvs (init c ms ca0) nobs cop_args_opt marg_args_opt random_state)
              (\<lambda>sample. colon_index sample i) =
        pbind (colon_index (Mat (length ms) rows) i)
              (\<lambda>u_i. Inr (map_array (\<lambda>u. m_ppf (ms ! i) (contracted u) (ma ! i)) u_i))"
    if "i < length ms" for i
    using that by (simp add: whole comp_def)
  with whole show ?thesis by (simp add: contracted_Fin)
qed

theorem rvs_column_transform_witness:
  "rvs ex_joint 2 None None () = Inr (Mat 2 [[Fin (1 / 20000000000), Fin (19999999999 / 20000000000)],
                                            [Fin (1 / 20000000000), Fin (19999999999 / 20000000000)]])"
proof -
  have draw: "Copula_rvs ex_indep 2 (case None of None \<Rightarrow> PTuple [] | Some a \<Rightarrow> a) () =
             Inr (Mat (length [ex_uniform, ex_uniform]) [[Fin 0, Fin 1], [Fin 0, Fin 1]])"
    by (simp add: Copula_rvs_def ex_indep_def numeral_2_eq_2)
  have wf: "wf_array (Mat (length [ex_uniform, ex_uniform]) [[Fin 0, Fin 1], [Fin 0, Fin 1]])"
    by simp
  have ma: "empty_tuples 2 = (case None of None \<Rightarrow> empty_tuples (length [ex_uniform, ex_uniform])
                               | Some a \<Rightarrow> a)"
    by (simp add: numeral_2_eq_2)
  have len: "length [ex_uniform, ex_uniform] \<le> length (empty_tuples 2)"
    by simp
  from rvs_column_transform[OF draw wf ma len]
  show ?thesis
    by (simp add: ex_joint_def ex_uniform_def contracted_Fin upt_conv_Cons numeral_2_eq_2)
qed

text \<open>
  Claim C4. The contraction maps every number of the closed interval \<open>[0, 1]\<close>, the two
  ends included, into the open interval \<open>(0, 1)\<close>. So when the copula's draw is a matrix
  of numbers of \<open>[0, 1]\<close>, \<^verbatim>\<open>rvs\<close> evaluates every \<^verbatim>\<open>ppf\<close> at a finite number strictly
  between 0 and 1, and when every marginal's \<^verbatim>\<open>ppf\<close> is finite there, no entry of the
  sample is infinite or NaN. The arithmetic of the theorem is exact; by
  \<open>contracted_rounded_interior\<close> the bounds hold for rounded operations too.
\<close>

theorem rvs_boundary_safe:
  assumes "Copula_rvs c nobs (case cop_args_opt of None \<Rightarrow> ca0 | Some a \<Rightarrow> a) random_state =
             Inr (Mat (length ms) rows)"
    and "wf_array (Mat (length ms) rows)"
    and "ma = (case marg_args_opt of None \<Rightarrow> empty_tuples (length ms) | Some a \<Rightarrow> a)"
    and "length ms \<le> length ma"
    and "\<forall>r\<in>set rows. \<forall>u\<in>set r. \<exists>x. u = Fin x \<and> 0 \<le> x \<and> x \<le> 1"
    and "\<forall>d\<in>set ms. \<forall>q a. 0 < q \<and> q < 1 \<longrightarrow> is_finite (m_ppf d (Fin q) a)"
  shows "(\<forall>x. 0 \<le> x \<and> x \<le> 1 \<longrightarrow> (\<exists>q. contracted (Fin x) = Fin q \<and> 0 < q \<and> q < 1))
       \<and> rvs (init c ms ca0) nobs cop_args_opt marg_args_opt random_state =
           Inr (Mat (length ms)
                  (map (\<lambda>r. map (\<lambda>i. m_ppf (ms ! i) (contracted (r ! i)) (ma ! i))
                               [0..<length ms]) rows))
       \<and> (\<forall>r\<in>set rows. \<forall>i<length ms.
             (\<exists>q. contracted (r ! i) = Fin q \<and> 0 < q \<and> q < 1)
             \<and> is_finite (m_ppf (ms ! i) (contracted (r ! i)) (ma ! i)))"
proof -
  have interior: "\<exists>q. contracted (Fin x) = Fin q \<and> 0 < q \<and> q < 1" if "0 \<le> x" "x \<le> 1" for x
    using contracted_interior[OF that] by (simp add: contracted_Fin)
  have draw: "Copula_rvs c nobs (resolve_cop_args (init c ms ca0) cop_args_opt) random_state =
             Inr (Mat (length ms) rows)"
    using assms(1) by (cases cop_args_opt) (simp_all add: resolve_cop_args_def)
  note whole = rvs_explicit[OF draw assms(2,3,4)]
  have entry: "(\<exists>q. contracted (r ! i) = Fin q \<and> 0 < q \<and> q < 1)
             \<and> is_finite (m_ppf (ms ! i) (contracted (r ! i)) (ma ! i))"
    if r: "r \<in> set rows" and i: "i < length ms" for r i
  proof -
    have "length r = length ms" using assms(2) r by (simp add: list_all_iff)
    then have "r ! i \<in> set r" using i by simp
    then obtain x where x: "r ! i = Fin x" "0 \<le> x" "x \<le> 1" using assms(5) r by blast
    obtain q where q: "contracted (Fin x) = Fin q" "0 < q" "q < 1"
      using interior[OF x(2,3)] by blast
    have "ms ! i \<in> set ms" using i by simp
    then have "is_finite (m_ppf (ms ! i) (Fin q) (ma ! i))" using assms(6) q(2,3) by blast
    with x(1) q show ?thesis by simp
  qed
  from interior whole entry show ?thesis by blast
qed

theorem rvs_boundary_safe_witness:
  "rvs ex_joint_logistic 2 None None () =
     Inr (Mat 2 (map (\<lambda>r. map (\<lambda>i. m_ppf ex_logistic (contracted (r ! i)) []) [0, 1])
                   [[Fin 0, Fin 1], [Fin 0, Fin 1]]))
   \<and> contracted (Fin 0) = Fin (1 / 20000000000)
   \<and> contracted (Fin 1) = Fin (19999999999 / 20000000000)
   \<and> is_finite (m_ppf ex_logistic (contracted (Fin 0)) [])
   \<and> is_finite (m_ppf ex_logistic (contracted (Fin 1)) [])
   \<and> \<not> is_finite (m_ppf ex_logistic (Fin 0) [])
   \<and> \<not> is_finite (m_ppf ex_logistic (Fin 1) [])"
proof -
  have draw: "Copula_rvs ex_indep 2 (case None of None \<Rightarrow> PTuple [] | Some a \<Rightarrow> a) () =
             Inr (Mat (length [ex_logistic, ex_logistic]) [[Fin 0, Fin 1], [Fin 0, Fin 1]])"
    by (simp add: Copula_rvs_def ex_indep_def numeral_2_eq_2)
  have wf: "wf_array (Mat (length [ex_logistic, ex_logistic]) [[Fin 0, Fin 1], [Fin 0, Fin 1]])"
    by simp
  have ma: "empty_tuples 2 = (case None of None \<Rightarrow> empty_tuples (length [ex_logistic, ex_logistic])
                               | Some a \<Rightarrow> a)"
    by (simp add: numeral_2_eq_2)
  have len: "length [ex_logistic, ex_logistic] \<le> length (empty_tuples 2)"
    by simp
  have unit: "\<forall>r\<in>set [[Fin 0, Fin 1], [Fin 0, Fin 1]]. \<forall>u\<in>set r. \<exists>x. u = Fin x \<and> 0 \<le> x \<and> x \<le> 1"
    by simp
  have fin: "\<forall>d\<in>set [ex_logistic, ex_logistic]. \<forall>q a. 0 < q \<and> q < 1 \<longrightarrow>
               is_finite (m_ppf d (Fin q) a)"
    by (simp add: ex_logistic_def)
  note inst = rvs_boundary_safe[OF draw wf ma len unit fin]
  have whole: "rvs ex_joint_logistic 2 None None () =
     Inr (Mat 2 (map (\<lambda>r. map (\<lambda>i. m_ppf ex_logistic (contracted (r ! i)) []) [0, 1])
                   [[Fin 0, Fin 1], [Fin 0, Fin 1]]))"
    using inst by (simp add: ex_joint_logistic_def upt_conv_Cons numeral_2_eq_2)
  have c0: "contracted (Fin 0) = Fin (1 / 20000000000)"
   and c1: "contracted (Fin 1) = Fin (19999999999 / 20000000000)"
    by (simp_all add: contracted_Fin)
  have f0: "is_finite (m_ppf ex_logistic (contracted (Fin 0)) [])"
   and f1: "is_finite (m_ppf ex_logistic (contracted (Fin 1)) [])"
    using inst by (simp_all add: numeral_2_eq_2 All_less_Suc)
  have "\<not> is_finite (m_ppf ex_logistic (Fin 0) [])" "\<not> is_finite (m_ppf ex_logistic (Fin 1) [])"
    by (simp_all add: ex_logistic_def)
  with whole c0 c1 f0 f1 show ?thesis by blast
qed

section \<open>Defaults of \<^verbatim>\<open>marg_args\<close>\<close>

text \<open>\<^verbatim>\<open>rvs\<close> reads \<^verbatim>\<open>marg_args[i]\<close> for every marginal: a list that is too short raises.\<close>

lemma rvs_loop_short_args:
  "i0 + length ds \<le> m \<Longrightarrow> i0 \<le> length ma \<Longrightarrow> length ma < i0 + length ds \<Longrightarrow>
   rvs_loop i0 ds ma (Mat m rows) = Inl IndexError"
proof (induction ds arbitrary: i0 rows)
  case Nil
  then show ?case by simp
next
  case (Cons d ds)
  have i0: "i0 < m" using Cons.prems(1) by simp
  show ?case
  proof (cases "i0 < length ma")
    case False
    with i0 show ?thesis by simp
  next
    case True
    have "rvs_loop (Suc i0) ds ma (Mat m rows') = Inl IndexError" for rows'
      using Cons.prems True by (intro Cons.IH) simp_all
    then show ?thesis
      using i0 True
        set_column_of_column[OF i0, of rows "\<lambda>u. m_ppf d (contracted u) (ma ! i0)"]
      by (simp add: comp_def)
  qed
qed

lemma rvs_short_marg_args:
  assumes "Copula_rvs c nobs (resolve_cop_args (init c ms ca0) cop_args_opt) random_state =
             Inr (Mat (length ms) rows)"
    and "length ma < length ms"
  shows "rvs (init c ms ca0) nobs cop_args_opt (Some ma) random_state = Inl IndexError"
  using assms rvs_loop_short_args[of 0 ms "length ms" ma rows] by (simp add: rvs_def)

lemma cdf_no_marginals_scalar:
  "cdf (init c [] ca0) (Scalar x) cop_args_opt None = Inl IndexError"
  "cdf (init c [] ca0) (Scalar x) cop_args_opt (Some []) = Inl ValueError"
  "logpdf (init c [] ca0) (Scalar x) cop_args_opt None = Inl IndexError"
  "logpdf (init c [] ca0) (Scalar x) cop_args_opt (Some []) = Inl ValueError"
  by (simp_all add: cdf_def logpdf_def)

text \<open>
  Claim C10. With \<^verbatim>\<open>marg_args=None\<close>, the list that \<^verbatim>\<open>cdf\<close> and \<^verbatim>\<open>logpdf\<close> build
  has one empty tuple for each entry of the last axis of \<open>y\<close> (and building it raises when
  \<open>y\<close> has no axis), and the list that \<^verbatim>\<open>rvs\<close> builds has one empty tuple for each
  marginal. So when the last axis of \<open>y\<close> has a length other than \<open>k_vars\<close>, the default
  of \<^verbatim>\<open>cdf\<close> and \<^verbatim>\<open>logpdf\<close> has the length of that axis, which is not the length of the
  default of \<^verbatim>\<open>rvs\<close>. Each method then runs on the list it built. Two effects are
  visible from outside: with no marginals and a 0-dimensional \<open>y\<close>, \<^verbatim>\<open>cdf\<close> and
  \<^verbatim>\<open>logpdf\<close> raise \<^verbatim>\<open>IndexError\<close> from \<^verbatim>\<open>y.shape[-1]\<close>, where the list of \<open>k_vars = 0\<close>
  tuples leads to the \<^verbatim>\<open>ValueError\<close> of the column stacking; and \<^verbatim>\<open>rvs\<close> raises
  \<^verbatim>\<open>IndexError\<close> on a list with fewer tuples than marginals, which its default never is.
\<close>

theorem default_marg_args_length:
  "cdf_marg_args y None =
     (case shape_last y of Inl e \<Rightarrow> Inl e | Inr m \<Rightarrow> Inr (replicate m []))
   \<and> logpdf_marg_args y None =
     (case shape_last y of Inl e \<Rightarrow> Inl e | Inr m \<Rightarrow> Inr (replicate m []))
   \<and> rvs_marg_args self None = replicate (k_vars self) []
   \<and> (shape_last y = Inr m \<and> m \<noteq> k_vars self \<longrightarrow>
        (\<exists>ma. cdf_marg_args y None = Inr ma \<and> logpdf_marg_args y None = Inr ma
              \<and> length ma = m \<and> length ma \<noteq> length (rvs_marg_args self None)))
   \<and> cdf self y cop_args_opt marg_args_opt =
       pbind (cdf_marg_args y marg_args_opt) (\<lambda>ma. cdf self y cop_args_opt (Some ma))
   \<and> logpdf self y cop_args_opt marg_args_opt =
       pbind (logpdf_marg_args y marg_args_opt) (\<lambda>ma. logpdf self y cop_args_opt (Some ma))
   \<and> rvs self nobs cop_args_opt marg_args_opt random_state =
       rvs self nobs cop_args_opt (Some (rvs_marg_args self marg_args_opt)) random_state
   \<and> cdf (init c [] ca0) (Scalar x) cop_args_opt None = Inl IndexError
   \<and> cdf (init c [] ca0) (Scalar x) cop_args_opt (Some (replicate 0 [])) = Inl ValueError
   \<and> logpdf (init c [] ca0) (Scalar x) cop_args_opt None = Inl IndexError
   \<and> logpdf (init c [] ca0) (Scalar x) cop_args_opt (Some (replicate 0 [])) = Inl ValueError
   \<and> (Copula_rvs c nobs (case cop_args_opt of None \<Rightarrow> ca0 | Some a \<Rightarrow> a) random_state =
         Inr (Mat (length ms) rows) \<and> wf_array (Mat (length ms) rows) \<longrightarrow>
        rvs (init c ms ca0) nobs cop_args_opt None random_state =
          Inr (Mat (length ms)
                 (map (\<lambda>r. map (\<lambda>i. m_ppf (ms ! i) (contracted (r ! i)) []) [0..<length ms]) rows))
        \<and> (\<forall>ma. length ma < length ms \<longrightarrow>
              rvs (init c ms ca0) nobs cop_args_opt (Some ma) random_state = Inl IndexError))"
proof -
  have locals_cdf: "cdf_marg_args y None =
     (case shape_last y of Inl e \<Rightarrow> Inl e | Inr m \<Rightarrow> Inr (replicate m []))"
    by (cases "shape_last y") (simp_all add: empty_tuples_def)
  have locals_logpdf: "logpdf_marg_args y None =
     (case shape_last y of Inl e \<Rightarrow> Inl e | Inr m \<Rightarrow> Inr (replicate m []))"
    by (cases "shape_last y") (simp_all add: empty_tuples_def)
  have locals_rvs: "rvs_marg_args self None = replicate (k_vars self) []"
    by (simp add: empty_tuples_def)
  have differ: "\<exists>ma. cdf_marg_args y None = Inr ma \<and> logpdf_marg_args y None = Inr ma
              \<and> length ma = m \<and> length ma \<noteq> length (rvs_marg_args self None)"
    if "shape_last y = Inr m" "m \<noteq> k_vars self"
    using that by simp
  have run_cdf: "cdf self y cop_args_opt marg_args_opt =
       pbind (cdf_marg_args y marg_args_opt) (\<lambda>ma. cdf self y cop_args_opt (Some ma))"
    by (cases "cdf_marg_args y marg_args_opt") (simp_all add: cdf_def)
  have run_logpdf: "logpdf self y cop_args_opt marg_args_opt =
       pbind (logpdf_marg_args y marg_args_opt) (\<lambda>ma. logpdf self y cop_args_opt (Some ma))"
    by (cases "logpdf_marg_args y marg_args_opt") (simp_all add: logpdf_def)
  have run_rvs: "rvs self nobs cop_args_opt marg_args_opt random_state =
       rvs self nobs cop_args_opt (Some (rvs_marg_args self marg_args_opt)) random_state"
    by (simp add: rvs_def)
  have sample: "rvs (init c ms ca0) nobs cop_args_opt None random_state =
          Inr (Mat (length ms)
                 (map (\<lambda>r. map (\<lambda>i. m_ppf (ms ! i) (contracted (r ! i)) []) [0..<length ms]) rows))
        \<and> (\<forall>ma. length ma < length ms \<longrightarrow>
              rvs (init c ms ca0) nobs cop_args_opt (Some ma) random_state = Inl IndexError)"
    if draw: "Copula_rvs c nobs (case cop_args_opt of None \<Rightarrow> ca0 | Some a \<Rightarrow> a) random_state =
         Inr (Mat (length ms) rows)" and wf: "wf_array (Mat (length ms) rows)"
  proof -
    have draw': "Copula_rvs c nobs (resolve_cop_args (init c ms ca0) cop_args_opt) random_state =
             Inr (Mat (length ms) rows)"
      using draw by (cases cop_args_opt) (simp_all add: resolve_cop_args_def)
    have "rvs (init c ms ca0) nobs cop_args_opt None random_state =
          Inr (Mat (length ms)
                 (map (\<lambda>r. map (\<lambda>i. m_ppf (ms ! i) (contracted (r ! i)) (empty_tuples (length ms) ! i))
                              [0..<length ms]) rows))"
      by (rule rvs_explicit[OF draw' wf]) simp_all
    then have "rvs (init c ms ca0) nobs cop_args_opt None random_state =
          Inr (Mat (length ms)
                 (map (\<lambda>r. map (\<lambda>i. m_ppf (ms ! i) (contracted (r ! i)) []) [0..<length ms]) rows))"
      by simp
    with rvs_short_marg_args[OF draw'] show ?thesis by blast
  qed
  from locals_cdf locals_logpdf locals_rvs differ run_cdf run_logpdf run_rvs sample
    cdf_no_marginals_scalar[of c ca0 x cop_args_opt]
  show ?thesis by (simp del: marg_args_None)
qed

theorem default_marg_args_length_witness:
  "shape_last (Mat 3 [[Fin (1 / 2), Fin (1 / 3), Fin (1 / 5)]]) = Inr 3
   \<and> k_vars ex_joint = 2
   \<and> cdf_marg_args (Mat 3 [[Fin (1 / 2), Fin (1 / 3), Fin (1 / 5)]]) None = Inr [[], [], []]
   \<and> logpdf_marg_args (Mat 3 [[Fin (1 / 2), Fin (1 / 3), Fin (1 / 5)]]) None = Inr [[], [], []]
   \<and> rvs_marg_args ex_joint None = [[], []]
   \<and> rvs ex_joint 1 None None () =
       Inr (Mat 2 [[Fin (1 / 20000000000), Fin (19999999999 / 20000000000)]])
   \<and> rvs ex_joint 1 None (Some [[]]) () = Inl IndexError"
proof -
  let ?y = "Mat 3 [[Fin (1 / 2), Fin (1 / 3), Fin (1 / 5)]]"
  let ?ms = "[ex_uniform, ex_uniform]"
  let ?J = "init ex_indep ?ms (PTuple [])"
  have y: "shape_last ?y = Inr 3 \<and> 3 \<noteq> k_vars ex_joint"
    by (simp add: ex_joint_def)
  have draw: "Copula_rvs ex_indep 1 (case None of None \<Rightarrow> PTuple [] | Some a \<Rightarrow> a) () =
                Inr (Mat (length ?ms) [[Fin 0, Fin 1]])
              \<and> wf_array (Mat (length ?ms) [[Fin 0, Fin 1]])"
    by (simp add: Copula_rvs_def ex_indep_def)
  note inst = default_marg_args_length
      [of ?y ex_joint 3 None None 1 "()" ex_indep "PTuple []" "Fin 0" ?ms "[[Fin 0, Fin 1]]"]
  have differ: "shape_last ?y = Inr 3 \<and> 3 \<noteq> k_vars ex_joint \<longrightarrow>
        (\<exists>ma. cdf_marg_args ?y None = Inr ma \<and> logpdf_marg_args ?y None = Inr ma
              \<and> length ma = 3 \<and> length ma \<noteq> length (rvs_marg_args ex_joint None))"
    using inst by (elim conjE) assumption
  have loc: "rvs_marg_args ex_joint None = replicate (k_vars ex_joint) []"
    using inst by (elim conjE) assumption
  have sample: "Copula_rvs ex_indep 1 (case None of None \<Rightarrow> PTuple [] | Some a \<Rightarrow> a) () =
                Inr (Mat (length ?ms) [[Fin 0, Fin 1]])
              \<and> wf_array (Mat (length ?ms) [[Fin 0, Fin 1]]) \<longrightarrow>
        rvs ?J 1 None None () =
          Inr (Mat (length ?ms)
                 (map (\<lambda>r. map (\<lambda>i. m_ppf (?ms ! i) (contracted (r ! i)) []) [0..<length ?ms])
                    [[Fin 0, Fin 1]]))
        \<and> (\<forall>ma. length ma < length ?ms \<longrightarrow> rvs ?J 1 None (Some ma) () = Inl IndexError)"
    using inst by (elim conjE) assumption
  from differ y obtain ma where ma: "cdf_marg_args ?y None = Inr ma"
      "logpdf_marg_args ?y None = Inr ma" "length ma = 3"
    by blast
  have "ma = [[], [], []]"
    using ma(1) by (auto simp: empty_tuples_def numeral_3_eq_3)
  with ma have a: "cdf_marg_args ?y None = Inr [[], [], []]"
    and b: "logpdf_marg_args ?y None = Inr [[], [], []]"
    by simp_all
  have c: "rvs_marg_args ex_joint None = [[], []]"
    unfolding loc by (simp add: ex_joint_def numeral_2_eq_2)
  from sample draw have d0: "rvs ?J 1 None None () =
          Inr (Mat (length ?ms)
                 (map (\<lambda>r. map (\<lambda>i. m_ppf (?ms ! i) (contracted (r ! i)) []) [0..<length ?ms])
                    [[Fin 0, Fin 1]]))"
    and e0: "\<forall>ma. length ma < length ?ms \<longrightarrow> rvs ?J 1 None (Some ma) () = Inl IndexError"
    by blast+
  have d: "rvs ex_joint 1 None None () =
       Inr (Mat 2 [[Fin (1 / 20000000000), Fin (19999999999 / 20000000000)]])"
    unfolding ex_joint_def d0
    by (simp add: ex_uniform_def contracted_Fin upt_conv_Cons numeral_2_eq_2)
  have e: "rvs ex_joint 1 None (Some [[]]) () = Inl IndexError"
    unfolding ex_joint_def using e0 by simp
  from y a b c d e show ?thesis by (simp add: ex_joint_def del: marg_args_None)
qed

section \<open>The abstract methods\<close>

text \<open>
  Claim C9. \<^verbatim>\<open>Copula.rvs\<close> and \<^verbatim>\<open>Copula._arg_from_tau\<close> raise \<^verbatim>\<open>NotImplementedError\<close>
  for all arguments. A family that does not override them inherits this: its \<^verbatim>\<open>rvs\<close>
  and its hook raise, and so do the methods that call them, \<^verbatim>\<open>CopulaDistribution.rvs\<close>,
  \<^verbatim>\<open>tau_simulated\<close> and, on data of two columns, \<^verbatim>\<open>fit_corr_param\<close>.
\<close>

theorem abstract_methods_not_implemented:
  "base_rvs nobs args random_state = Inl NotImplementedError
   \<and> base_arg_from_tau tau = Inl NotImplementedError
   \<and> (rvs_override c = None \<longrightarrow>
        Copula_rvs c nobs args random_state = Inl NotImplementedError
        \<and> rvs (init c ms ca0) nobs cop_args_opt marg_args_opt random_state = Inl NotImplementedError
        \<and> tau_simulated kendalltau c nobs random_state = Inl NotImplementedError)
   \<and> (arg_from_tau_override c = None \<longrightarrow>
        arg_from_tau c tau = Inl NotImplementedError
        \<and> fit_corr_param kendalltau c (Mat 2 rows) = Inl NotImplementedError)"
  by (simp add: base_rvs_def base_arg_from_tau_def Copula_rvs_def arg_from_tau_def rvs_def
        tau_simulated_def fit_corr_param_def)

theorem abstract_methods_not_implemented_witness:
  "Copula_rvs ex_abstract 5 (PTuple []) () = Inl NotImplementedError
   \<and> rvs (init ex_abstract [ex_uniform, ex_uniform] (PTuple [])) 5 None None () =
       Inl NotImplementedError
   \<and> arg_from_tau ex_abstract (Fin (1 / 2)) = Inl NotImplementedError
   \<and> fit_corr_param ex_kendalltau ex_abstract (Mat 2 [[Fin 0, Fin 1], [Fin 1, Fin 2]]) =
       Inl NotImplementedError
   \<and> Copula_rvs ex_indep 1 (PTuple []) () = Inr (Mat 2 [[Fin 0, Fin 1]])
   \<and> fit_corr_param ex_kendalltau ex_indep (Mat 2 [[Fin 0, Fin 1], [Fin 1, Fin 2]]) =
       Inr (PNum (Fin 1))"
proof -
  have none: "rvs_override ex_abstract = None" "arg_from_tau_override ex_abstract = None"
    by (simp_all add: ex_abstract_def)
  note inst = abstract_methods_not_implemented
      [of 5 "PTuple []" "()" "Fin (1 / 2)" ex_abstract "[ex_uniform, ex_uniform]" "PTuple []"
          None None ex_kendalltau "[[Fin 0, Fin 1], [Fin 1, Fin 2]]"]
  have "Copula_rvs ex_indep 1 (PTuple []) () = Inr (Mat 2 [[Fin 0, Fin 1]])"
    by (simp add: Copula_rvs_def ex_indep_def)
  moreover have "fit_corr_param ex_kendalltau ex_indep (Mat 2 [[Fin 0, Fin 1], [Fin 1, Fin 2]]) =
       Inr (PNum (Fin 1))"
    by (simp add: fit_corr_param_def arg_from_tau_def ex_indep_def)
  ultimately show ?thesis using inst none by simp
qed

section \<open>The default log-density of a copula\<close>

text \<open>
  What \<^verbatim>\<open>Copula.logpdf\<close> computes: the tuple \<open>args\<close> is unpacked into the call of
  \<^verbatim>\<open>pdf\<close>, so that \<^verbatim>\<open>pdf\<close> receives \<open>args\<close> itself only when \<open>args\<close> is empty.
\<close>

lemma base_logpdf_cases:
  "base_logpdf c u (PTuple []) = pbind (Copula_pdf c u (PTuple [])) (\<lambda>p. Inr (np_log p))"
  "base_logpdf c u (PTuple [a]) = pbind (Copula_pdf c u a) (\<lambda>p. Inr (np_log p))"
  "base_logpdf c u (PTuple (a # b # bs)) = Inl TypeError"
  "base_logpdf c u (PNum x) = Inl TypeError"
  by (simp_all add: base_logpdf_def)

text \<open>
  Claim C2 says that the default \<^verbatim>\<open>logpdf(u, args)\<close> is the logarithm of
  \<^verbatim>\<open>pdf(u, args)\<close>. On a family with two parameters the code raises instead: \<^verbatim>\<open>pdf\<close> is
  called with three positional arguments. The logarithm of \<^verbatim>\<open>pdf(u, args)\<close> exists there.
\<close>

theorem base_logpdf_two_parameters:
  "logpdf_override ex_two_param = None
   \<and> Copula_logpdf ex_two_param (Vec [Fin (1 / 2), Fin (1 / 2)])
       (PTuple [PNum (Fin 1), PNum (Fin 2)]) = Inl TypeError
   \<and> pbind (Copula_pdf ex_two_param (Vec [Fin (1 / 2), Fin (1 / 2)])
              (PTuple [PNum (Fin 1), PNum (Fin 2)])) (\<lambda>p. Inr (np_log p)) = Inr (Scalar (Fin 0))"
  by (simp add: Copula_logpdf_def base_logpdf_def Copula_pdf_def ex_two_param_def ex_indep_def
        np_log_def)

section \<open>An input whose last axis does not match the marginals\<close>

lemma ellipsis_index_shape:
  "shape_last y = Inr m \<Longrightarrow> \<not> i < m \<Longrightarrow> ellipsis_index y i = Inl IndexError"
  by (cases y) auto

lemma ellipsis_index_error: "ellipsis_index y i = Inl e \<Longrightarrow> e = IndexError"
  by (cases y) (auto split: if_splits)

lemma ellipsis_index_take_columns:
  "i < k \<Longrightarrow> shape_last y = Inr m \<Longrightarrow> k \<le> m \<Longrightarrow>
   ellipsis_index (take_columns k y) i = ellipsis_index y i"
  by (cases y) auto

lemma ndim_take_columns [simp]: "ndim (take_columns k y) = ndim y"
  by (cases y) simp_all

lemma shape_last_take_columns:
  "shape_last y = Inr m \<Longrightarrow> k \<le> m \<Longrightarrow> shape_last (take_columns k y) = Inr k"
  by (cases y) auto

text \<open>The loops read \<open>y\<close> and \<open>marg_args\<close> at the indices they run over, and nowhere else.\<close>

lemma cdf_loop_cong:
  "\<forall>i\<in>set is. ellipsis_index y i = ellipsis_index y' i \<and> list_index ma i = list_index ma' i \<Longrightarrow>
   cdf_loop ms y ma is acc = cdf_loop ms y' ma' is acc"
  by (induction "is" arbitrary: acc) simp_all

lemma logpdf_loop_cong:
  "\<forall>i\<in>set is. ellipsis_index y i = ellipsis_index y' i \<and> list_index ma i = list_index ma' i \<Longrightarrow>
   logpdf_loop ms y ma is st = logpdf_loop ms y' ma' is st"
proof (induction "is" arbitrary: st)
  case Nil
  then show ?case by simp
next
  case (Cons i "is")
  obtain lpdf cm where st: "st = (lpdf, cm)" by (cases st)
  from Cons show ?case unfolding st by simp
qed

text \<open>A loop that reaches an index beyond the last axis of \<open>y\<close> raises \<^verbatim>\<open>IndexError\<close>.\<close>

lemma cdf_loop_short:
  "j \<in> set is \<Longrightarrow> \<forall>i\<in>set is. i < length ms \<Longrightarrow> shape_last y = Inr m \<Longrightarrow> \<not> j < m \<Longrightarrow>
   cdf_loop ms y ma is acc = Inl IndexError"
proof (induction "is" arbitrary: acc)
  case Nil
  then show ?case by simp
next
  case (Cons i "is")
  show ?case
  proof (cases "i < m")
    case False
    with Cons.prems show ?thesis by (simp add: ellipsis_index_shape)
  next
    case True
    then have "j \<in> set is" using Cons.prems by auto
    then have rest: "cdf_loop ms y ma is acc' = Inl IndexError" for acc'
      using Cons.prems by (intro Cons.IH) simp_all
    show ?thesis
      using Cons.prems(2) rest
      by (cases "ellipsis_index y i"; cases "i < length ma")
         (auto simp: pbind_def dest: ellipsis_index_error)
  qed
qed

lemma logpdf_loop_short_Vec:
  "j \<in> set is \<Longrightarrow> \<forall>i\<in>set is. i < length ms \<Longrightarrow> \<not> j < length ys \<Longrightarrow>
   logpdf_loop ms (Vec ys) ma is (Scalar s, cm) = Inl IndexError"
proof (induction "is" arbitrary: s cm)
  case Nil
  then show ?case by simp
next
  case (Cons i "is")
  show ?case
  proof (cases "i < length ys")
    case False
    with Cons.prems show ?thesis by simp
  next
    case True
    then have "j \<in> set is" using Cons.prems by auto
    then have rest: "logpdf_loop ms (Vec ys) ma is (Scalar s', cm') = Inl IndexError" for s' cm'
      using Cons.prems by (intro Cons.IH) simp_all
    show ?thesis
      using Cons.prems(2) rest True
      by (cases "i < length ma") simp_all
  qed
qed

lemma logpdf_loop_short_Mat:
  "j \<in> set is \<Longrightarrow> \<forall>i\<in>set is. i < length ms \<Longrightarrow> \<not> j < m \<Longrightarrow> length acc = length rows \<Longrightarrow>
   logpdf_loop ms (Mat m rows) ma is (Vec acc, cm) = Inl IndexError"
proof (induction "is" arbitrary: acc cm)
  case Nil
  then show ?case by simp
next
  case (Cons i "is")
  show ?case
  proof (cases "i < m")
    case False
    with Cons.prems show ?thesis by simp
  next
    case True
    then have "j \<in> set is" using Cons.prems by auto
    then have rest: "length acc' = length rows \<Longrightarrow>
        logpdf_loop ms (Mat m rows) ma is (Vec acc', cm') = Inl IndexError" for acc' cm'
      using Cons.prems by (intro Cons.IH) simp_all
    show ?thesis
      using Cons.prems(2,4) rest True
      by (cases "i < length ma") simp_all
  qed
qed

lemma logpdf_loop_short_Mat_start:
  assumes "j \<in> set is" and "\<forall>i\<in>set is. i < length ms" and "\<not> j < m"
  shows "logpdf_loop ms (Mat m rows) ma is (Scalar s, cm) = Inl IndexError"
proof (cases "is")
  case Nil
  with assms show ?thesis by simp
next
  case (Cons i js)
  show ?thesis
  proof (cases "i < m")
    case False
    with assms Cons show ?thesis by simp
  next
    case True
    then have j: "j \<in> set js" using assms Cons by auto
    have rest: "length acc' = length rows \<Longrightarrow>
        logpdf_loop ms (Mat m rows) ma js (Vec acc', cm') = Inl IndexError" for acc' cm'
      using assms Cons by (intro logpdf_loop_short_Mat[OF j]) simp_all
    show ?thesis
      using assms(2) rest True unfolding Cons
      by (cases "i < length ma") simp_all
  qed
qed

lemma cdf_short_axis:
  assumes "shape_last y = Inr m" and "m < length ms"
  shows "cdf (init c ms ca0) y cop_args_opt marg_args_opt = Inl IndexError"
proof -
  have "cdf_loop ms y ma [0..<length ms] [] = Inl IndexError" for ma
    using assms cdf_loop_short[of m "[0..<length ms]" ms y m ma "[]"] by simp
  then show ?thesis
    using assms(1) by (cases marg_args_opt) (simp_all add: cdf_def)
qed

lemma logpdf_short_axis:
  assumes "shape_last y = Inr m" and "m < length ms"
  shows "logpdf (init c ms ca0) y cop_args_opt marg_args_opt = Inl IndexError"
proof -
  have "logpdf_loop ms y ma [0..<length ms] (Scalar (Fin 0), []) = Inl IndexError" for ma
  proof (cases y)
    case (Scalar x)
    with assms show ?thesis by simp
  next
    case (Vec ys)
    with assms show ?thesis
      using logpdf_loop_short_Vec[of m "[0..<length ms]" ms ys ma "Fin 0" "[]"] by simp
  next
    case (Mat m' rows)
    with assms show ?thesis
      using logpdf_loop_short_Mat_start[of m "[0..<length ms]" ms m' rows ma "Fin 0" "[]"]
      by simp
  qed
  then show ?thesis
    using assms(1) by (cases marg_args_opt) (simp_all add: logpdf_def)
qed

lemma cdf_long_axis:
  assumes "shape_last y = Inr m" and "length ms \<le> m"
  shows "cdf (init c ms ca0) y cop_args_opt marg_args_opt =
         cdf (init c ms ca0) (take_columns (length ms) y) cop_args_opt marg_args_opt"
proof (cases marg_args_opt)
  case None
  have "cdf_loop ms y (empty_tuples m) [0..<length ms] [] =
        cdf_loop ms (take_columns (length ms) y) (empty_tuples (length ms)) [0..<length ms] []"
    using assms by (intro cdf_loop_cong) (simp add: ellipsis_index_take_columns)
  then show ?thesis
    using None assms by (simp add: cdf_def shape_last_take_columns)
next
  case (Some ma)
  have "cdf_loop ms y ma [0..<length ms] [] =
        cdf_loop ms (take_columns (length ms) y) ma [0..<length ms] []"
    using assms by (intro cdf_loop_cong) (simp add: ellipsis_index_take_columns)
  then show ?thesis
    using Some by (simp add: cdf_def)
qed

lemma logpdf_long_axis:
  assumes "shape_last y = Inr m" and "length ms \<le> m"
  shows "logpdf (init c ms ca0) y cop_args_opt marg_args_opt =
         logpdf (init c ms ca0) (take_columns (length ms) y) cop_args_opt marg_args_opt"
proof (cases marg_args_opt)
  case None
  have "logpdf_loop ms y (empty_tuples m) [0..<length ms] st =
        logpdf_loop ms (take_columns (length ms) y) (empty_tuples (length ms)) [0..<length ms] st"
    for st
    using assms by (intro logpdf_loop_cong) (simp add: ellipsis_index_take_columns)
  then show ?thesis
    using None assms by (simp add: logpdf_def shape_last_take_columns)
next
  case (Some ma)
  have "logpdf_loop ms y ma [0..<length ms] st =
        logpdf_loop ms (take_columns (length ms) y) ma [0..<length ms] st" for st
    using assms by (intro logpdf_loop_cong) (simp add: ellipsis_index_take_columns)
  then show ?thesis
    using Some by (simp add: logpdf_def)
qed

text \<open>\<^verbatim>\<open>np.column_stack\<close> raises nothing but \<^verbatim>\<open>ValueError\<close>.\<close>

lemma concatenate_1_error: "concatenate_1 mr as = Inl e \<Longrightarrow> e = ValueError"
proof (induction mr as rule: concatenate_1.induct)
  case (1 m rows)
  then show ?case by simp
next
  case (2 m rows a as)
  then show ?case by (cases "as_columns a") (auto split: if_splits)
qed

lemma column_stack_error: "column_stack as = Inl e \<Longrightarrow> e = ValueError"
  by (cases as) (auto dest: concatenate_1_error)

text \<open>
  Claim C8 says that \<^verbatim>\<open>cdf\<close> and \<^verbatim>\<open>logpdf\<close> raise a shape failure at the column
  stacking step whenever the last axis of \<open>y\<close> differs from \<open>k_vars\<close>. They do not: on a
  row of three numbers and two marginals both return a value, and on a row of one number
  both raise \<^verbatim>\<open>IndexError\<close>, which the column stacking never raises.
\<close>

theorem last_axis_mismatch_counterexample:
  "k_vars ex_joint = 2
   \<and> shape_last (Mat 3 [[Fin (1 / 2), Fin (1 / 2), Fin (1 / 2)]]) = Inr 3
   \<and> cdf ex_joint (Mat 3 [[Fin (1 / 2), Fin (1 / 2), Fin (1 / 2)]]) None None =
       Inr (Vec [Fin (1 / 4)])
   \<and> logpdf ex_joint (Mat 3 [[Fin (1 / 2), Fin (1 / 2), Fin (1 / 2)]]) None None =
       Inr (Vec [Fin 0])
   \<and> shape_last (Mat 1 [[Fin (1 / 2)]]) = Inr 1
   \<and> cdf ex_joint (Mat 1 [[Fin (1 / 2)]]) None None = Inl IndexError
   \<and> logpdf ex_joint (Mat 1 [[Fin (1 / 2)]]) None None = Inl IndexError"
  by (simp add: ex_joint_def cdf_def logpdf_def ex_indep_def ex_uniform_def Copula_cdf_def
        Copula_logpdf_def base_logpdf_def Copula_pdf_def np_log_def resolve_cop_args_def
        upt_conv_Cons numeral_2_eq_2 numeral_3_eq_3)

text \<open>
  Claim C8, amended. Let \<open>y\<close> have a last axis of length \<open>m\<close>. When \<open>m\<close> is less than
  \<open>k_vars\<close>, \<^verbatim>\<open>cdf\<close> and \<^verbatim>\<open>logpdf\<close> raise \<^verbatim>\<open>IndexError\<close>, whatever the other arguments
  are: the error comes from an index into \<open>y\<close> or \<open>marg_args\<close>, before the columns are
  stacked. When \<open>m\<close> is greater than \<open>k_vars\<close>, the mismatch raises nothing: both methods
  read the first \<open>k_vars\<close> entries of the last axis only, and behave on \<open>y\<close> as on
  \<^verbatim>\<open>y[..., :k_vars]\<close>, whose last axis matches.
\<close>

theorem last_axis_mismatch:
  assumes "shape_last y = Inr m"
  shows "(m < length ms \<longrightarrow>
            cdf (init c ms ca0) y cop_args_opt marg_args_opt = Inl IndexError
          \<and> logpdf (init c ms ca0) y cop_args_opt marg_args_opt = Inl IndexError)
       \<and> (length ms < m \<longrightarrow>
            cdf (init c ms ca0) y cop_args_opt marg_args_opt =
              cdf (init c ms ca0) (take_columns (length ms) y) cop_args_opt marg_args_opt
          \<and> logpdf (init c ms ca0) y cop_args_opt marg_args_opt =
              logpdf (init c ms ca0) (take_columns (length ms) y) cop_args_opt marg_args_opt
          \<and> shape_last (take_columns (length ms) y) = Inr (length ms))"
proof (intro conjI impI)
  assume "m < length ms"
  then show "cdf (init c ms ca0) y cop_args_opt marg_args_opt = Inl IndexError"
    and "logpdf (init c ms ca0) y cop_args_opt marg_args_opt = Inl IndexError"
    using assms by (simp_all add: cdf_short_axis logpdf_short_axis)
next
  assume "length ms < m"
  then have le: "length ms \<le> m" by simp
  show "cdf (init c ms ca0) y cop_args_opt marg_args_opt =
          cdf (init c ms ca0) (take_columns (length ms) y) cop_args_opt marg_args_opt"
    by (rule cdf_long_axis[OF assms le])
  show "logpdf (init c ms ca0) y cop_args_opt marg_args_opt =
          logpdf (init c ms ca0) (take_columns (length ms) y) cop_args_opt marg_args_opt"
    by (rule logpdf_long_axis[OF assms le])
  show "shape_last (take_columns (length ms) y) = Inr (length ms)"
    by (rule shape_last_take_columns[OF assms le])
qed

theorem last_axis_mismatch_witness:
  "cdf ex_joint (Mat 3 [[Fin (1 / 2), Fin (1 / 3), Fin (1 / 5)]]) None None =
     cdf ex_joint (Mat 2 [[Fin (1 / 2), Fin (1 / 3)]]) None None
   \<and> logpdf ex_joint (Mat 3 [[Fin (1 / 2), Fin (1 / 3), Fin (1 / 5)]]) None None =
     logpdf ex_joint (Mat 2 [[Fin (1 / 2), Fin (1 / 3)]]) None None
   \<and> cdf ex_joint (Vec [Fin (1 / 2)]) None None = Inl IndexError
   \<and> logpdf ex_joint (Vec [Fin (1 / 2)]) None None = Inl IndexError"
proof -
  have long: "shape_last (Mat 3 [[Fin (1 / 2), Fin (1 / 3), Fin (1 / 5)]]) = Inr 3"
    and short: "shape_last (Vec [Fin (1 / 2)]) = Inr 1"
    by simp_all
  from last_axis_mismatch[OF long, of "[ex_uniform, ex_uniform]" ex_indep "PTuple []" None None]
       last_axis_mismatch[OF short, of "[ex_uniform, ex_uniform]" ex_indep "PTuple []" None None]
  show ?thesis by (simp add: ex_joint_def numeral_2_eq_2)
qed

section \<open>The shape of the results\<close>

lemma squeeze_one_row: "m \<noteq> 1 \<Longrightarrow> squeeze (Mat m [r]) = Vec r"
  by simp

lemma np_iadd_Scalar_fun: "np_iadd (Scalar a) = (\<lambda>b. Inr (map_array (fl_add a) b))"
  by (rule ext) simp

lemma cdf_Vec_explicit:
  assumes "2 \<le> length ms" and "length ms \<le> length ys" and "length ms \<le> length ma"
  shows "cdf (init c ms ca0) (Vec ys) cop_args_opt (Some ma) =
     Copula_cdf c (Vec (map (\<lambda>i. m_cdf (ms ! i) (ys ! i) (ma ! i)) [0..<length ms]))
       (resolve_cop_args (init c ms ca0) cop_args_opt)"
proof -
  have idx: "\<forall>i\<in>set [0..<length ms]. i < length ms \<and> i < length ys \<and> i < length ma"
    using assms by auto
  have ne: "[0..<length ms] \<noteq> []" and k: "length ms \<noteq> 1" using assms(1) by auto
  show ?thesis
    using column_stack_Scalars[OF ne, of "\<lambda>i. m_cdf (ms ! i) (ys ! i) (ma ! i)"] k
    by (simp add: cdf_def cdf_loop_Vec[OF idx])
qed

lemma logpdf_Vec_explicit:
  assumes "2 \<le> length ms" and "length ms \<le> length ys" and "length ms \<le> length ma"
  shows "logpdf (init c ms ca0) (Vec ys) cop_args_opt (Some ma) =
     pbind (Copula_logpdf c (Vec (map (\<lambda>i. m_cdf (ms ! i) (ys ! i) (ma ! i)) [0..<length ms]))
              (resolve_cop_args (init c ms ca0) cop_args_opt))
       (\<lambda>cl. np_iadd
                (Scalar (fl_sum (map (\<lambda>i. m_logpdf (ms ! i) (ys ! i) (ma ! i)) [0..<length ms])))
                cl)"
proof -
  have idx: "\<forall>i\<in>set [0..<length ms]. i < length ms \<and> i < length ys \<and> i < length ma"
    using assms by auto
  have ne: "[0..<length ms] \<noteq> []" and k: "length ms \<noteq> 1" using assms(1) by auto
  show ?thesis
    using column_stack_Scalars[OF ne, of "\<lambda>i. m_cdf (ms ! i) (ys ! i) (ma ! i)"] k
    by (simp add: logpdf_def logpdf_loop_Vec[OF idx] fl_sum_def np_iadd_Scalar_fun)
qed

lemma cdf_default_marg_args_Vec:
  "cdf self (Vec ys) cop_args_opt None =
   cdf self (Vec ys) cop_args_opt (Some (empty_tuples (length ys)))"
  by (simp add: cdf_def)

lemma logpdf_default_marg_args_Vec:
  "logpdf self (Vec ys) cop_args_opt None =
   logpdf self (Vec ys) cop_args_opt (Some (empty_tuples (length ys)))"
  by (simp add: logpdf_def)

text \<open>
  Claim C7. Let there be \<open>k_vars \<ge> 2\<close> marginals, a tuple in \<open>marg_args\<close> for each, and a
  copula whose \<^verbatim>\<open>cdf\<close> and \<^verbatim>\<open>logpdf\<close> keep the contract of the interface at the given
  \<open>cop_args\<close>: one number for a flat point of length \<open>k_vars\<close>, and an array of \<open>n\<close> numbers
  for a matrix of \<open>n\<close> points. Then \<^verbatim>\<open>cdf\<close>, \<^verbatim>\<open>pdf\<close> and \<^verbatim>\<open>logpdf\<close> of the joint
  distribution return a 0-dimensional result for a flat \<open>y\<close> of length \<open>k_vars\<close> (the
  copula is given the squeezed, flat \<open>u\<close>), and an array of length \<open>n\<close> for a matrix \<open>y\<close> of
  \<open>n\<close> rows and \<open>k_vars\<close> columns.
\<close>

theorem shape_contract:
  assumes "2 \<le> length ms"
    and "ma = (case marg_args_opt of None \<Rightarrow> empty_tuples (length ms) | Some a \<Rightarrow> a)"
    and "length ms \<le> length ma"
    and "ca = (case cop_args_opt of None \<Rightarrow> ca0 | Some a \<Rightarrow> a)"
    and "\<forall>u. length u = length ms \<longrightarrow>
           (\<exists>v. Copula_cdf c (Vec u) ca = Inr (Scalar v))
         \<and> (\<exists>v. Copula_logpdf c (Vec u) ca = Inr (Scalar v))"
    and "\<forall>u. wf_array (Mat (length ms) u) \<longrightarrow>
           (\<exists>vs. Copula_cdf c (Mat (length ms) u) ca = Inr (Vec vs) \<and> length vs = length u)
         \<and> (\<exists>vs. Copula_logpdf c (Mat (length ms) u) ca = Inr (Vec vs) \<and> length vs = length u)"
  shows "(length ys = length ms \<longrightarrow>
            (\<exists>v. cdf (init c ms ca0) (Vec ys) cop_args_opt marg_args_opt = Inr (Scalar v))
          \<and> (\<exists>v. pdf (init c ms ca0) (Vec ys) cop_args_opt marg_args_opt = Inr (Scalar v))
          \<and> (\<exists>v. logpdf (init c ms ca0) (Vec ys) cop_args_opt marg_args_opt = Inr (Scalar v)))
       \<and> (wf_array (Mat (length ms) rows) \<longrightarrow>
            (\<exists>vs. cdf (init c ms ca0) (Mat (length ms) rows) cop_args_opt marg_args_opt =
                     Inr (Vec vs) \<and> length vs = length rows)
          \<and> (\<exists>vs. pdf (init c ms ca0) (Mat (length ms) rows) cop_args_opt marg_args_opt =
                     Inr (Vec vs) \<and> length vs = length rows)
          \<and> (\<exists>vs. logpdf (init c ms ca0) (Mat (length ms) rows) cop_args_opt marg_args_opt =
                     Inr (Vec vs) \<and> length vs = length rows))"
proof (intro conjI impI)
  have ca: "resolve_cop_args (init c ms ca0) cop_args_opt = ca"
    using assms(4) by (cases cop_args_opt) (simp_all add: resolve_cop_args_def)
  have ne: "ms \<noteq> []" using assms(1) by auto
  {
    assume len: "length ys = length ms"
    let ?u = "map (\<lambda>i. m_cdf (ms ! i) (ys ! i) (ma ! i)) [0..<length ms]"
    have cdf_eq: "cdf (init c ms ca0) (Vec ys) cop_args_opt marg_args_opt =
                  Copula_cdf c (Vec ?u) ca"
      using assms(1,2,3) len cdf_Vec_explicit[of ms ys ma c ca0 cop_args_opt]
      by (cases marg_args_opt) (simp_all add: cdf_default_marg_args_Vec ca)
    have logpdf_eq: "logpdf (init c ms ca0) (Vec ys) cop_args_opt marg_args_opt =
        pbind (Copula_logpdf c (Vec ?u) ca)
          (\<lambda>cl. np_iadd
             (Scalar (fl_sum (map (\<lambda>i. m_logpdf (ms ! i) (ys ! i) (ma ! i)) [0..<length ms])))
             cl)"
      using assms(1,2,3) len logpdf_Vec_explicit[of ms ys ma c ca0 cop_args_opt]
      by (cases marg_args_opt) (simp_all add: logpdf_default_marg_args_Vec ca)
    have "length ?u = length ms" by simp
    with assms(5) obtain v w where
      v: "Copula_cdf c (Vec ?u) ca = Inr (Scalar v)" and
      w: "Copula_logpdf c (Vec ?u) ca = Inr (Scalar w)"
      by blast
    show "\<exists>v. cdf (init c ms ca0) (Vec ys) cop_args_opt marg_args_opt = Inr (Scalar v)"
      using cdf_eq v by simp
    show l: "\<exists>v. logpdf (init c ms ca0) (Vec ys) cop_args_opt marg_args_opt = Inr (Scalar v)"
      using logpdf_eq w by simp
    then show "\<exists>v. pdf (init c ms ca0) (Vec ys) cop_args_opt marg_args_opt = Inr (Scalar v)"
      by (auto simp: pdf_def np_exp_def)
  }
  {
    assume wf: "wf_array (Mat (length ms) rows)"
    let ?u = "map (\<lambda>r. map (\<lambda>i. m_cdf (ms ! i) (r ! i) (ma ! i)) [0..<length ms]) rows"
    let ?s = "map (\<lambda>r. fl_sum (map (\<lambda>i. m_logpdf (ms ! i) (r ! i) (ma ! i)) [0..<length ms])) rows"
    have cdf_eq: "cdf (init c ms ca0) (Mat (length ms) rows) cop_args_opt marg_args_opt =
                  Copula_cdf c (Mat (length ms) ?u) ca"
      using assms(2,3) ne cdf_Mat_explicit[of ms "length ms" ma c ca0 rows cop_args_opt]
      by (cases marg_args_opt) (simp_all add: cdf_default_marg_args_Mat ca)
    have logpdf_eq: "logpdf (init c ms ca0) (Mat (length ms) rows) cop_args_opt marg_args_opt =
        pbind (Copula_logpdf c (Mat (length ms) ?u) ca) (\<lambda>cl. np_iadd (Vec ?s) cl)"
      using assms(2,3) ne logpdf_Mat_explicit[of ms "length ms" ma c ca0 rows cop_args_opt]
      by (cases marg_args_opt) (simp_all add: logpdf_default_marg_args_Mat ca)
    have "wf_array (Mat (length ms) ?u)" by (simp add: list_all_iff)
    with assms(6) obtain vs ws where
      vs: "Copula_cdf c (Mat (length ms) ?u) ca = Inr (Vec vs)" "length vs = length ?u" and
      ws: "Copula_logpdf c (Mat (length ms) ?u) ca = Inr (Vec ws)" "length ws = length ?u"
      by blast
    show "\<exists>vs. cdf (init c ms ca0) (Mat (length ms) rows) cop_args_opt marg_args_opt =
                     Inr (Vec vs) \<and> length vs = length rows"
      using cdf_eq vs by simp
    show l: "\<exists>vs. logpdf (init c ms ca0) (Mat (length ms) rows) cop_args_opt marg_args_opt =
                     Inr (Vec vs) \<and> length vs = length rows"
      using logpdf_eq ws by simp
    then show "\<exists>vs. pdf (init c ms ca0) (Mat (length ms) rows) cop_args_opt marg_args_opt =
                     Inr (Vec vs) \<and> length vs = length rows"
      by (auto simp: pdf_def np_exp_def)
  }
qed

theorem shape_contract_witness:
  "(\<exists>v. cdf ex_joint (Vec [Fin (1 / 2), Fin (1 / 4)]) None None = Inr (Scalar v))
   \<and> (\<exists>v. pdf ex_joint (Vec [Fin (1 / 2), Fin (1 / 4)]) None None = Inr (Scalar v))
   \<and> (\<exists>v. logpdf ex_joint (Vec [Fin (1 / 2), Fin (1 / 4)]) None None = Inr (Scalar v))
   \<and> (\<exists>vs. cdf ex_joint (Mat 2 [[Fin (1 / 2), Fin (1 / 4)], [Fin (1 / 3), Fin 1], [Fin 0, Fin 2]])
               None None = Inr (Vec vs) \<and> length vs = 3)
   \<and> (\<exists>vs. pdf ex_joint (Mat 2 [[Fin (1 / 2), Fin (1 / 4)], [Fin (1 / 3), Fin 1], [Fin 0, Fin 2]])
               None None = Inr (Vec vs) \<and> length vs = 3)
   \<and> (\<exists>vs. logpdf ex_joint (Mat 2 [[Fin (1 / 2), Fin (1 / 4)], [Fin (1 / 3), Fin 1], [Fin 0, Fin 2]])
               None None = Inr (Vec vs) \<and> length vs = 3)
   \<and> cdf ex_joint (Vec [Fin (1 / 2), Fin (1 / 4)]) None None = Inr (Scalar (Fin (1 / 8)))
   \<and> cdf ex_joint (Mat 2 [[Fin (1 / 2), Fin (1 / 4)], [Fin (1 / 3), Fin 1], [Fin 0, Fin 2]])
        None None = Inr (Vec [Fin (1 / 8), Fin (1 / 3), Fin 0])"
proof -
  have k: "2 \<le> length [ex_uniform, ex_uniform]" by simp
  have ma: "empty_tuples 2 =
      (case None of None \<Rightarrow> empty_tuples (length [ex_uniform, ex_uniform]) | Some a \<Rightarrow> a)"
    by (simp add: numeral_2_eq_2)
  have len: "length [ex_uniform, ex_uniform] \<le> length (empty_tuples 2)" by simp
  have ca: "PTuple [] = (case None of None \<Rightarrow> PTuple [] | Some a \<Rightarrow> a)" by simp
  have flat: "\<forall>u. length u = length [ex_uniform, ex_uniform] \<longrightarrow>
           (\<exists>v. Copula_cdf ex_indep (Vec u) (PTuple []) = Inr (Scalar v))
         \<and> (\<exists>v. Copula_logpdf ex_indep (Vec u) (PTuple []) = Inr (Scalar v))"
    by (simp add: Copula_cdf_def Copula_logpdf_def base_logpdf_def Copula_pdf_def ex_indep_def
          np_log_def)
  have mat: "\<forall>u. wf_array (Mat (length [ex_uniform, ex_uniform]) u) \<longrightarrow>
           (\<exists>vs. Copula_cdf ex_indep (Mat (length [ex_uniform, ex_uniform]) u) (PTuple []) =
                    Inr (Vec vs) \<and> length vs = length u)
         \<and> (\<exists>vs. Copula_logpdf ex_indep (Mat (length [ex_uniform, ex_uniform]) u) (PTuple []) =
                    Inr (Vec vs) \<and> length vs = length u)"
    by (simp add: Copula_cdf_def Copula_logpdf_def base_logpdf_def Copula_pdf_def ex_indep_def
          np_log_def)
  note inst = shape_contract[OF k ma len ca flat mat,
      where ys = "[Fin (1 / 2), Fin (1 / 4)]",
      where rows = "[[Fin (1 / 2), Fin (1 / 4)], [Fin (1 / 3), Fin 1], [Fin 0, Fin 2]]"]
  have shapes:
    "(\<exists>v. cdf ex_joint (Vec [Fin (1 / 2), Fin (1 / 4)]) None None = Inr (Scalar v))
   \<and> (\<exists>v. pdf ex_joint (Vec [Fin (1 / 2), Fin (1 / 4)]) None None = Inr (Scalar v))
   \<and> (\<exists>v. logpdf ex_joint (Vec [Fin (1 / 2), Fin (1 / 4)]) None None = Inr (Scalar v))
   \<and> (\<exists>vs. cdf ex_joint (Mat 2 [[Fin (1 / 2), Fin (1 / 4)], [Fin (1 / 3), Fin 1], [Fin 0, Fin 2]])
               None None = Inr (Vec vs) \<and> length vs = 3)
   \<and> (\<exists>vs. pdf ex_joint (Mat 2 [[Fin (1 / 2), Fin (1 / 4)], [Fin (1 / 3), Fin 1], [Fin 0, Fin 2]])
               None None = Inr (Vec vs) \<and> length vs = 3)
   \<and> (\<exists>vs. logpdf ex_joint (Mat 2 [[Fin (1 / 2), Fin (1 / 4)], [Fin (1 / 3), Fin 1], [Fin 0, Fin 2]])
               None None = Inr (Vec vs) \<and> length vs = 3)"
    using inst by (simp add: ex_joint_def numeral_2_eq_2 numeral_3_eq_3)
  have concrete:
    "cdf ex_joint (Vec [Fin (1 / 2), Fin (1 / 4)]) None None = Inr (Scalar (Fin (1 / 8)))
   \<and> cdf ex_joint (Mat 2 [[Fin (1 / 2), Fin (1 / 4)], [Fin (1 / 3), Fin 1], [Fin 0, Fin 2]])
        None None = Inr (Vec [Fin (1 / 8), Fin (1 / 3), Fin 0])"
    by (simp add: ex_joint_def cdf_def ex_indep_def ex_uniform_def Copula_cdf_def
          resolve_cop_args_def upt_conv_Cons numeral_2_eq_2)
  from shapes concrete show ?thesis by simp
qed

section \<open>Fitting the dependence parameter\<close>

lemma pair_taus_Mat:
  "list_all (\<lambda>(i, j). i < m \<and> j < m) ps \<Longrightarrow>
   pair_taus kendalltau (Mat m rows) ps =
     Inr (map (\<lambda>(i, j). kendalltau (Vec (map (\<lambda>r. r ! i) rows)) (Vec (map (\<lambda>r. r ! j) rows))) ps)"
  by (induction ps) auto

lemma set_index_pairs: "set (index_pairs k) = {(i, j). i < j \<and> j < nat k}"
proof (rule set_eqI)
  fix p :: "nat \<times> nat"
  obtain a b where p: "p = (a, b)" by (cases p)
  have "(a, b) \<in> set (index_pairs k) \<longleftrightarrow> a < b \<and> b < nat k"
  proof
    assume "(a, b) \<in> set (index_pairs k)"
    then show "a < b \<and> b < nat k" by (auto simp: index_pairs_def)
  next
    assume ab: "a < b \<and> b < nat k"
    then have "\<exists>x\<in>{0..<nat k}. (a, b) \<in> Pair x ` {Suc x..<nat k}"
      by (intro bexI[of _ a]) auto
    then show "(a, b) \<in> set (index_pairs k)"
      by (simp add: index_pairs_def)
  qed
  then show "p \<in> set (index_pairs k) \<longleftrightarrow> p \<in> {(i, j). i < j \<and> j < nat k}"
    unfolding p by simp
qed

lemma distinct_index_pairs: "distinct (index_pairs k)"
  unfolding index_pairs_def
proof (rule distinct_concat)
  have "inj_on (\<lambda>i. map (\<lambda>j. (i, j)) [Suc i..<nat k]) (set [0..<nat k])"
  proof (rule inj_onI)
    fix x y
    assume x: "x \<in> set [0..<nat k]" and y: "y \<in> set [0..<nat k]"
      and eq: "map (\<lambda>j. (x, j)) [Suc x..<nat k] = map (\<lambda>j. (y, j)) [Suc y..<nat k]"
    from eq have "length (map (\<lambda>j. (x, j)) [Suc x..<nat k]) =
                  length (map (\<lambda>j. (y, j)) [Suc y..<nat k])"
      by simp
    then have "nat k - Suc x = nat k - Suc y" by simp
    with x y show "x = y" by simp
  qed
  then show "distinct (map (\<lambda>i. map (\<lambda>j. (i, j)) [Suc i..<nat k]) [0..<nat k])"
    by (simp add: distinct_map)
next
  fix ys assume "ys \<in> set (map (\<lambda>i. map (\<lambda>j. (i, j)) [Suc i..<nat k]) [0..<nat k])"
  then show "distinct ys" by (auto simp: distinct_map inj_on_def)
next
  fix ys zs
  assume "ys \<in> set (map (\<lambda>i. map (\<lambda>j. (i, j)) [Suc i..<nat k]) [0..<nat k])"
    and "zs \<in> set (map (\<lambda>i. map (\<lambda>j. (i, j)) [Suc i..<nat k]) [0..<nat k])"
    and "ys \<noteq> zs"
  then show "set ys \<inter> set zs = {}" by auto
qed

lemma length_index_pairs: "length (index_pairs k) = nat k * (nat k - 1) div 2"
proof -
  have "length (index_pairs k) = sum_list (map (\<lambda>i. nat k - Suc i) [0..<nat k])"
    by (simp add: index_pairs_def length_concat comp_def)
  also have "\<dots> = (\<Sum>i<nat k. nat k - Suc i)"
    by (simp add: interv_sum_list_conv_sum_set_nat atLeast0LessThan)
  also have "\<dots> = (\<Sum>i<nat k. i)"
    by (rule sum.nat_diff_reindex)
  also have "\<dots> = nat k * (nat k - 1) div 2"
    using Sum_Ico_nat[of 0 "nat k"] by (simp add: atLeast0LessThan)
  finally show ?thesis .
qed

text \<open>\<^verbatim>\<open>np.mean\<close> is the arithmetic mean; the mean of one number is that number.\<close>

lemma fl_sum_Fin: "foldl fl_add (Fin a) (map Fin xs) = Fin (a + sum_list xs)"
  by (induction xs arbitrary: a) (simp_all add: add.assoc)

lemma np_mean_Fin: "xs \<noteq> [] \<Longrightarrow> np_mean (map Fin xs) = Fin (sum_list xs / real (length xs))"
  by (simp add: np_mean_def fl_sum_def fl_sum_Fin)

lemma np_mean_single: "np_mean [t] = t"
  by (cases t) (simp_all add: np_mean_def fl_sum_def)

lemma index_pairs_2: "index_pairs 2 = [(0, 1)]"
  by (simp add: index_pairs_def upt_conv_Cons numeral_2_eq_2)

text \<open>
  Claim C5. Let the data be a matrix with at least \<open>k_dim\<close> columns, \<open>k_dim \<ge> 2\<close> (a data
  matrix of the copula has \<open>k_dim\<close> columns). When \<open>k_dim = 2\<close>, \<^verbatim>\<open>fit_corr_param\<close> returns
  the hook \<^verbatim>\<open>_arg_from_tau\<close> at Kendall's tau of the first two columns. When \<open>k_dim > 2\<close>,
  it returns the hook at the mean of Kendall's tau over the pairs of columns \<open>(i, j)\<close>
  with \<open>i < j < k_dim\<close>; the list of these pairs has no repetition and
  \<open>k_dim * (k_dim - 1) / 2\<close> entries. \<^verbatim>\<open>np.mean\<close> is the arithmetic mean (\<open>np_mean_Fin\<close>).
\<close>

theorem fit_corr_param_tau:
  assumes "wf_array (Mat m rows)" and "2 \<le> k_dim c" and "k_dim c \<le> int m"
  shows "(k_dim c = 2 \<longrightarrow>
            fit_corr_param kendalltau c (Mat m rows) =
              arg_from_tau c (kendalltau (Vec (map (\<lambda>r. r ! 0) rows)) (Vec (map (\<lambda>r. r ! 1) rows))))
       \<and> (2 < k_dim c \<longrightarrow>
            fit_corr_param kendalltau c (Mat m rows) =
              arg_from_tau c
                (np_mean (map (\<lambda>(i, j). kendalltau (Vec (map (\<lambda>r. r ! i) rows))
                                                   (Vec (map (\<lambda>r. r ! j) rows)))
                              (index_pairs (k_dim c)))))
       \<and> set (index_pairs (k_dim c)) = {(i, j). i < j \<and> j < nat (k_dim c)}
       \<and> distinct (index_pairs (k_dim c))
       \<and> length (index_pairs (k_dim c)) = nat (k_dim c) * (nat (k_dim c) - 1) div 2"
proof -
  have cols: "list_all (\<lambda>(i, j). i < m \<and> j < m) (index_pairs (k_dim c))"
    using assms(3) by (auto simp: list_all_iff set_index_pairs)
  note taus = pair_taus_Mat[OF cols, of kendalltau rows]
  have two: "fit_corr_param kendalltau c (Mat m rows) =
      arg_from_tau c (kendalltau (Vec (map (\<lambda>r. r ! 0) rows)) (Vec (map (\<lambda>r. r ! 1) rows)))"
    if k: "k_dim c = 2"
  proof (cases "m = 2")
    case True
    then show ?thesis by (simp add: fit_corr_param_def)
  next
    case False
    then show ?thesis
      using taus by (simp add: fit_corr_param_def k index_pairs_2 np_mean_single)
  qed
  have more: "fit_corr_param kendalltau c (Mat m rows) =
      arg_from_tau c
        (np_mean (map (\<lambda>(i, j). kendalltau (Vec (map (\<lambda>r. r ! i) rows))
                                           (Vec (map (\<lambda>r. r ! j) rows)))
                      (index_pairs (k_dim c))))"
    if k: "2 < k_dim c"
  proof -
    have "m \<noteq> 2" using k assms(3) by simp
    then show ?thesis using taus by (simp add: fit_corr_param_def)
  qed
  from two more show ?thesis
    by (simp add: set_index_pairs distinct_index_pairs length_index_pairs)
qed

theorem fit_corr_param_tau_witness:
  "fit_corr_param ex_kendalltau ex_indep (Mat 2 [[Fin 0, Fin 1], [Fin 1, Fin 3], [Fin 2, Fin 2]]) =
     Inr (PNum (Fin 1))
   \<and> fit_corr_param ex_kendalltau (ex_indep\<lparr>k_dim := 3\<rparr>)
       (Mat 3 [[Fin 0, Fin 1, Fin 5], [Fin 1, Fin 3, Fin 4], [Fin 2, Fin 2, Fin 3]]) =
     Inr (PNum (Fin (- 1 / 3)))
   \<and> index_pairs 3 = [(0, 1), (0, 2), (1, 2)]"
proof -
  have wf2: "wf_array (Mat 2 [[Fin 0, Fin 1], [Fin 1, Fin 3], [Fin 2, Fin 2]])"
   and wf3: "wf_array (Mat 3 [[Fin 0, Fin 1, Fin 5], [Fin 1, Fin 3, Fin 4], [Fin 2, Fin 2, Fin 3]])"
    by simp_all
  have k2: "2 \<le> k_dim ex_indep" "k_dim ex_indep \<le> int 2"
   and k3: "2 \<le> k_dim (ex_indep\<lparr>k_dim := 3\<rparr>)" "k_dim (ex_indep\<lparr>k_dim := 3\<rparr>) \<le> int 3"
    by (simp_all add: ex_indep_def)
  have pairs: "index_pairs 3 = [(0, 1), (0, 2), (1, 2)]"
    by (simp add: index_pairs_def upt_conv_Cons numeral_3_eq_3)
  from fit_corr_param_tau[OF wf2 k2, of ex_kendalltau]
  have a: "fit_corr_param ex_kendalltau ex_indep
             (Mat 2 [[Fin 0, Fin 1], [Fin 1, Fin 3], [Fin 2, Fin 2]]) = Inr (PNum (Fin 1))"
    by (simp add: ex_indep_def arg_from_tau_def)
  from fit_corr_param_tau[OF wf3 k3, of ex_kendalltau]
  have b: "fit_corr_param ex_kendalltau (ex_indep\<lparr>k_dim := 3\<rparr>)
       (Mat 3 [[Fin 0, Fin 1, Fin 5], [Fin 1, Fin 3, Fin 4], [Fin 2, Fin 2, Fin 3]]) =
     Inr (PNum (Fin (- 1 / 3)))"
    by (simp add: ex_indep_def arg_from_tau_def pairs np_mean_def fl_sum_def)
  from a b pairs show ?thesis by simp
qed

end
